theory Spec2Isabelle
  imports Complex_Main "HOL-Library.FSet" "HOL-Library.Multiset"
begin


section \<open>JavaScript numbers\<close>

text \<open>
  A JavaScript number is modelled as a real number or one of the three special values
  \<open>Infinity\<close>, \<open>-Infinity\<close> and \<open>NaN\<close>; \<open>Fin r\<close> stands for a double of value \<open>r\<close>. The
  special values follow IEEE 754 as ECMAScript applies it: every comparison with
  \<open>NaN\<close> is false, \<open>Math.max\<close> and \<open>Math.min\<close> return \<open>NaN\<close> as soon as one
  argument is \<open>NaN\<close>. The range of the doubles is modelled: an exact result of
  magnitude \<open>2^1024 - 2^970\<close> or more becomes an infinity, and an exponential of at
  most \<open>2^-1075\<close> becomes zero. Within the range a result is kept exact: the rounding
  to 53 bits and the sign of zero are outside the model, so nothing is stated here
  that depends on them.
\<close>

datatype jsnum = Fin real | PInf | NInf | NaN

fun isFinite :: "jsnum \<Rightarrow> bool" where
  "isFinite (Fin r) = True"
| "isFinite PInf = False"
| "isFinite NInf = False"
| "isFinite NaN = False"

fun js_neg :: "jsnum \<Rightarrow> jsnum" where
  "js_neg (Fin r) = Fin (- r)"
| "js_neg PInf = NInf"
| "js_neg NInf = PInf"
| "js_neg NaN = NaN"

text \<open>The sign of a number that is not \<open>NaN\<close>: \<open>-1\<close>, \<open>0\<close> or \<open>1\<close>.\<close>

fun js_sign :: "jsnum \<Rightarrow> int" where
  "js_sign (Fin r) = (if r < 0 then - 1 else if r = 0 then 0 else 1)"
| "js_sign PInf = 1"
| "js_sign NInf = - 1"
| "js_sign NaN = 0"

definition inf_of_sign :: "int \<Rightarrow> jsnum" where
  "inf_of_sign s = (if s < 0 then NInf else if s = 0 then NaN else PInf)"

definition overflow_bound :: real where
  "overflow_bound = 2 ^ 1024 - 2 ^ 970"

text \<open>The double for an exact finite result, as far as its range goes.\<close>

definition fl :: "real \<Rightarrow> jsnum" where
  "fl x = (if overflow_bound \<le> x then PInf else if x \<le> - overflow_bound then NInf else Fin x)"

fun js_add :: "jsnum \<Rightarrow> jsnum \<Rightarrow> jsnum" where
  "js_add NaN b = NaN"
| "js_add a NaN = NaN"
| "js_add (Fin a) (Fin b) = fl (a + b)"
| "js_add PInf NInf = NaN"
| "js_add NInf PInf = NaN"
| "js_add PInf b = PInf"
| "js_add NInf b = NInf"
| "js_add (Fin a) b = b"

definition js_sub :: "jsnum \<Rightarrow> jsnum \<Rightarrow> jsnum" where
  "js_sub a b = js_add a (js_neg b)"

fun js_mul :: "jsnum \<Rightarrow> jsnum \<Rightarrow> jsnum" where
  "js_mul NaN b = NaN"
| "js_mul a NaN = NaN"
| "js_mul (Fin a) (Fin b) = fl (a * b)"
| "js_mul a b = inf_of_sign (js_sign a * js_sign b)"

text \<open>
  Division: a finite number divided by zero gives an infinity of the sign of the
  numerator (the zero divisor is taken as \<open>+0\<close>) and \<open>0 / 0\<close> is \<open>NaN\<close>.
\<close>

fun js_div :: "jsnum \<Rightarrow> jsnum \<Rightarrow> jsnum" where
  "js_div NaN b = NaN"
| "js_div a NaN = NaN"
| "js_div (Fin a) (Fin b) = (if b = 0 then inf_of_sign (js_sign (Fin a)) else fl (a / b))"
| "js_div (Fin a) b = Fin 0"
| "js_div a (Fin b) = inf_of_sign (js_sign a * (if b < 0 then - 1 else 1))"
| "js_div a b = NaN"

fun js_lt :: "jsnum \<Rightarrow> jsnum \<Rightarrow> bool" where
  "js_lt NaN b = False"
| "js_lt a NaN = False"
| "js_lt (Fin a) (Fin b) = (a < b)"
| "js_lt PInf b = False"
| "js_lt a NInf = False"
| "js_lt NInf b = True"
| "js_lt a PInf = True"

definition js_gt :: "jsnum \<Rightarrow> jsnum \<Rightarrow> bool" where
  "js_gt a b = js_lt b a"

text \<open>Strict equality \<open>===\<close> on numbers: \<open>NaN\<close> equals nothing.\<close>

definition js_eq :: "jsnum \<Rightarrow> jsnum \<Rightarrow> bool" where
  "js_eq a b = (if a = NaN then False else a = b)"

definition js_le :: "jsnum \<Rightarrow> jsnum \<Rightarrow> bool" where
  "js_le a b = (if js_lt a b then True else js_eq a b)"

text \<open>\<open>Math.max\<close> and \<open>Math.min\<close> of two arguments, and of a spread list.\<close>

definition Math_max2 :: "jsnum \<Rightarrow> jsnum \<Rightarrow> jsnum" where
  "Math_max2 a b = (if a = NaN then NaN else if b = NaN then NaN else if js_lt a b then b else a)"

definition Math_min2 :: "jsnum \<Rightarrow> jsnum \<Rightarrow> jsnum" where
  "Math_min2 a b = (if a = NaN then NaN else if b = NaN then NaN else if js_lt b a then b else a)"

definition Math_max :: "jsnum list \<Rightarrow> jsnum" where
  "Math_max xs = foldl Math_max2 NInf xs"

definition Math_min :: "jsnum list \<Rightarrow> jsnum" where
  "Math_min xs = foldl Math_min2 PInf xs"

fun Math_exp :: "jsnum \<Rightarrow> jsnum" where
  "Math_exp (Fin r) = (if exp r \<le> 1 / 2 ^ 1075 then Fin 0 else fl (exp r))"
| "Math_exp PInf = PInf"
| "Math_exp NInf = Fin 0"
| "Math_exp NaN = NaN"

text \<open>\<open>Number.MIN_VALUE\<close>, the smallest positive double.\<close>

definition MIN_VALUE :: real where
  "MIN_VALUE = 1 / 2 ^ 1074"

definition Math_LN2 :: jsnum where
  "Math_LN2 = Fin (ln 2)"

section \<open>Temporal decay: the multiplier\<close>

record TemporalDecayConfig =
  enabled :: bool
  halfLifeDays :: jsnum

definition DEFAULT_TEMPORAL_DECAY_CONFIG :: TemporalDecayConfig where
  "DEFAULT_TEMPORAL_DECAY_CONFIG = \<lparr>enabled = False, halfLifeDays = Fin 30\<rparr>"

definition DAY_MS :: int where
  "DAY_MS = 24 * 60 * 60 * 1000"

definition toDecayLambda :: "jsnum \<Rightarrow> jsnum" where
  "toDecayLambda halfLife =
     (if \<not> isFinite halfLife \<or> js_le halfLife (Fin 0) then Fin 0
      else js_div Math_LN2 halfLife)"

definition calculateTemporalDecayMultiplier :: "jsnum \<Rightarrow> jsnum \<Rightarrow> jsnum" where
  "calculateTemporalDecayMultiplier ageInDays halfLife =
     (let lam = toDecayLambda halfLife;
          clampedAge = Math_max2 (Fin 0) ageInDays
      in if js_le lam (Fin 0) \<or> \<not> isFinite clampedAge then Fin 1
         else Math_exp (js_mul (js_neg lam) clampedAge))"

definition applyTemporalDecayToScore :: "jsnum \<Rightarrow> jsnum \<Rightarrow> jsnum \<Rightarrow> jsnum" where
  "applyTemporalDecayToScore sc ageInDays halfLife =
     js_mul sc (calculateTemporalDecayMultiplier ageInDays halfLife)"

section \<open>Paths of dated memory files\<close>

text \<open>
  Strings are lists of code units. The path functions below compare code units with
  ASCII characters only, so the width of a code unit plays no role.
\<close>

definition backslash :: char where
  "backslash = CHR 0x5C"

text \<open>\<open>filePath.replaceAll("\\", "/").replace(/^\.\//, "")\<close>\<close>

definition normalizePath :: "string \<Rightarrow> string" where
  "normalizePath filePath =
     (case map (\<lambda>c. if c = backslash then CHR ''/'' else c) filePath of
        a # b # rest \<Rightarrow> if a = CHR ''.'' \<and> b = CHR ''/'' then rest else a # b # rest
      | t \<Rightarrow> t)"

definition is_digit :: "char \<Rightarrow> bool" where
  "is_digit c = (c \<in> set ''0123456789'')"

text \<open>
  \<open>DATED_MEMORY_PATH_RE.exec\<close> for \<open>/(?:^|\/)memory\/(\d{4})-(\d{2})-(\d{2})\.md$/\<close>.
  The pattern is anchored at the end of the input and, after the left context
  \<open>(?:^|\/)\<close>, matches exactly twenty code units, so a match can only lie in the last
  twenty code units, preceded by the start of the input or by a slash. The result is
  the three capture groups.
\<close>

definition DATED_MEMORY_PATH_RE_exec :: "string \<Rightarrow> (string \<times> string \<times> string) option" where
  "DATED_MEMORY_PATH_RE_exec s =
     (let n = length s in
      if n < 20 then None
      else
        let t = drop (n - 20) s;
            g1 = take 4 (drop 7 t);
            g2 = take 2 (drop 12 t);
            g3 = take 2 (drop 15 t)
        in if (n = 20 \<or> s ! (n - 21) = CHR ''/'')
              \<and> take 7 t = ''memory/''
              \<and> list_all is_digit g1 \<and> t ! 11 = CHR ''-''
              \<and> list_all is_digit g2 \<and> t ! 14 = CHR ''-''
              \<and> list_all is_digit g3 \<and> drop 17 t = ''.md''
           then Some (g1, g2, g3) else None)"

definition DATED_MEMORY_PATH_RE_test :: "string \<Rightarrow> bool" where
  "DATED_MEMORY_PATH_RE_test s = (DATED_MEMORY_PATH_RE_exec s \<noteq> None)"

text \<open>\<open>Number(text)\<close> for a text of decimal digits.\<close>

definition digit_value :: "char \<Rightarrow> nat" where
  "digit_value c = of_char c - 48"

definition digits_to_nat :: "string \<Rightarrow> nat" where
  "digits_to_nat s = foldl (\<lambda>n c. 10 * n + digit_value c) 0 s"

definition Number_of_digits :: "string \<Rightarrow> jsnum" where
  "Number_of_digits s = Fin (of_nat (digits_to_nat s))"

definition Number_isInteger :: "jsnum \<Rightarrow> bool" where
  "Number_isInteger x = (case x of Fin r \<Rightarrow> of_int (floor r) = r | _ \<Rightarrow> False)"

section \<open>Dates\<close>

text \<open>
  The part of the ECMAScript \<open>Date\<close> object the code uses, after the abstract
  operations of the language specification (\<open>DayFromYear\<close>, \<open>YearFromTime\<close>,
  \<open>MonthFromTime\<close>, \<open>DateFromTime\<close>, \<open>MakeDay\<close>, \<open>MakeFullYear\<close>, \<open>TimeClip\<close>).
  A \<open>Date\<close> is its time value: milliseconds since the epoch, or \<open>NaN\<close>.
\<close>

type_synonym Date = jsnum

definition DaysInYear :: "int \<Rightarrow> int" where
  "DaysInYear y =
     (if y mod 4 \<noteq> 0 then 365 else if y mod 100 \<noteq> 0 then 366
      else if y mod 400 \<noteq> 0 then 365 else 366)"

definition InLeapYear :: "int \<Rightarrow> int" where
  "InLeapYear y = DaysInYear y - 365"

definition DayFromYear :: "int \<Rightarrow> int" where
  "DayFromYear y =
     365 * (y - 1970) + (y - 1969) div 4 - (y - 1901) div 100 + (y - 1601) div 400"

text \<open>
  \<open>YearFromTime\<close> is the largest year whose first day is not after the given day. The
  search starts at a year that is not after the result and walks up.
\<close>

lemma div_succ: 
  assumes n: "0 < (n::int)"
  shows "(a + 1) div n = a div n + (if (a + 1) mod n = 0 then 1 else 0)"
proof -
  have e: "a + 1 = (a mod n + 1) + (a div n) * n" by simp
  have "(a + 1) div n = ((a mod n + 1) + (a div n) * n) div n" using e by (simp only:)
  also have "\<dots> = a div n + (a mod n + 1) div n" using n by (simp only: div_mult_self1)
  finally have 1: "(a + 1) div n = a div n + (a mod n + 1) div n" .
  have "(a + 1) mod n = ((a mod n + 1) + (a div n) * n) mod n" using e by (simp only:)
  then have 2: "(a + 1) mod n = (a mod n + 1) mod n" by (simp only: mod_mult_self1)
  have m: "a mod n < n" "0 \<le> a mod n" using n by simp_all
  show ?thesis
  proof (cases "a mod n + 1 = n")
    case True
    then show ?thesis using 1 2 n by simp
  next
    case False
    then have lt: "a mod n + 1 < n" using m by linarith
    then have "(a mod n + 1) div n = 0" "(a mod n + 1) mod n = a mod n + 1" using m by simp_all
    then show ?thesis using 1 2 m by simp
  qed
qed

lemma mod_shift: "0 < (n::int) \<Longrightarrow> k mod n = 0 \<Longrightarrow> (y - k) mod n = y mod n"
  by (metis diff_zero mod_diff_right_eq)

lemma mod_400_imp_100: "(y::int) mod 400 = 0 \<Longrightarrow> y mod 100 = 0"
proof -
  assume "y mod 400 = 0"
  then have "400 dvd y" by (simp add: mod_eq_0_iff_dvd)
  moreover have "(100::int) dvd 400" by simp
  ultimately have "100 dvd y" by (rule dvd_trans[rotated])
  then show ?thesis by (simp add: mod_eq_0_iff_dvd)
qed

lemma mod_100_imp_4: "(y::int) mod 100 = 0 \<Longrightarrow> y mod 4 = 0"
proof -
  assume "y mod 100 = 0"
  then have "100 dvd y" by (simp add: mod_eq_0_iff_dvd)
  moreover have "(4::int) dvd 100" by simp
  ultimately have "4 dvd y" by (rule dvd_trans[rotated])
  then show ?thesis by (simp add: mod_eq_0_iff_dvd)
qed

lemma DayFromYear_Suc: "DayFromYear (y + 1) = DayFromYear y + DaysInYear y"
proof -
  have a: "(y + 1 - 1969) div 4 = (y - 1969) div 4 + (if y mod 4 = 0 then 1 else 0)"
    using div_succ [of 4 "y - 1969"] mod_shift [of 4 1968 y] by (simp add: algebra_simps)
  have b: "(y + 1 - 1901) div 100 = (y - 1901) div 100 + (if y mod 100 = 0 then 1 else 0)"
    using div_succ [of 100 "y - 1901"] mod_shift [of 100 1900 y] by (simp add: algebra_simps)
  have c: "(y + 1 - 1601) div 400 = (y - 1601) div 400 + (if y mod 400 = 0 then 1 else 0)"
    using div_succ [of 400 "y - 1601"] mod_shift [of 400 1600 y] by (simp add: algebra_simps)
  show ?thesis
    unfolding DayFromYear_def DaysInYear_def a b c
    using mod_400_imp_100 [of y] mod_100_imp_4 [of y] by auto
qed


lemma DaysInYear_bounds: "365 \<le> DaysInYear y" "DaysInYear y \<le> 366"
  by (simp_all add: DaysInYear_def)

lemma DayFromYear_add:
  "DayFromYear y + 365 * int n \<le> DayFromYear (y + int n) \<and>
   DayFromYear (y + int n) \<le> DayFromYear y + 366 * int n"
proof (induction n)
  case 0
  then show ?case by simp
next
  case (Suc n)
  have "DayFromYear (y + int (Suc n)) = DayFromYear (y + int n) + DaysInYear (y + int n)"
    using DayFromYear_Suc [of "y + int n"] by (simp add: algebra_simps)
  then show ?case
    using Suc DaysInYear_bounds [of "y + int n"] by simp
qed

lemma DayFromYear_mono: "y \<le> z \<Longrightarrow> DayFromYear y \<le> DayFromYear z"
  using DayFromYear_add [of y "nat (z - y)"] by simp

lemma DayFromYear_strict: "y < z \<Longrightarrow> DayFromYear (y + 1) \<le> DayFromYear z"
  using DayFromYear_mono [of "y + 1" z] by simp

lemma DayFromYear_1970: "DayFromYear 1970 = 0"
  by (simp add: DayFromYear_def)

lemma year_estimate: "DayFromYear (1970 + (if 0 \<le> d then d div 366 else d div 365)) \<le> d"
proof (cases "0 \<le> d")
  case True
  then have k: "0 \<le> d div 366" by simp
  have "DayFromYear (1970 + int (nat (d div 366))) \<le> DayFromYear 1970 + 366 * int (nat (d div 366))"
    using DayFromYear_add [of 1970 "nat (d div 366)"] by blast
  then have "DayFromYear (1970 + d div 366) \<le> 366 * (d div 366)"
    using k by (simp add: DayFromYear_1970)
  moreover have "366 * (d div 366) \<le> d" by simp
  ultimately show ?thesis using True by simp
next
  case False
  then have k: "d div 365 < 0" by simp
  let ?y = "1970 + d div 365"
  have "DayFromYear ?y + 365 * int (nat (- (d div 365))) \<le> DayFromYear (?y + int (nat (- (d div 365))))"
    using DayFromYear_add [of ?y "nat (- (d div 365))"] by blast
  then have "DayFromYear ?y \<le> 365 * (d div 365)"
    using k by (simp add: DayFromYear_1970)
  moreover have "365 * (d div 365) \<le> d" by simp
  ultimately show ?thesis using False by simp
qed

lemma DayFromYear_less_Suc: "DayFromYear y < DayFromYear (y + 1)"
  using DaysInYear_bounds [of y] by (simp add: DayFromYear_Suc)

function year_search :: "int \<Rightarrow> int \<Rightarrow> int" where
  "year_search y d = (if DayFromYear (y + 1) \<le> d then year_search (y + 1) d else y)"
  by pat_completeness auto
termination
proof (relation "measure (\<lambda>(y, d). nat (d - DayFromYear y))")
  show "wf (measure (\<lambda>(y, d). nat (d - DayFromYear y)))" by simp
next
  fix y d :: int
  assume "DayFromYear (y + 1) \<le> d"
  then show "((y + 1, d), (y, d)) \<in> measure (\<lambda>(y, d). nat (d - DayFromYear y))"
    using DayFromYear_less_Suc [of y] by simp
qed

declare year_search.simps [simp del]

definition YearFromDay :: "int \<Rightarrow> int" where
  "YearFromDay d = year_search (1970 + (if 0 \<le> d then d div 366 else d div 365)) d"

lemma year_search_bounds:
  "DayFromYear y \<le> d \<Longrightarrow>
   DayFromYear (year_search y d) \<le> d \<and> d < DayFromYear (year_search y d + 1)"
proof (induction y d rule: year_search.induct)
  case (1 y d)
  show ?case
  proof (cases "DayFromYear (y + 1) \<le> d")
    case True
    then show ?thesis using 1 by (subst (1 2) year_search.simps) simp
  next
    case False
    then show ?thesis using 1 by (subst (1 2) year_search.simps) simp
  qed
qed

lemma YearFromDay_bounds:
  "DayFromYear (YearFromDay d) \<le> d \<and> d < DayFromYear (YearFromDay d + 1)"
  unfolding YearFromDay_def by (rule year_search_bounds) (rule year_estimate)

lemma year_unique:
  assumes "DayFromYear y \<le> d" "d < DayFromYear (y + 1)"
      and "DayFromYear z \<le> d" "d < DayFromYear (z + 1)"
  shows "y = z"
proof (rule ccontr)
  assume "y \<noteq> z"
  then consider "y < z" | "z < y" by linarith
  then show False
  proof cases
    case 1
    then show False using DayFromYear_strict [of y z] assms by simp
  next
    case 2
    then show False using DayFromYear_strict [of z y] assms by simp
  qed
qed

lemma YearFromDay_eq:
  "DayFromYear y \<le> d \<Longrightarrow> d < DayFromYear (y + 1) \<Longrightarrow> YearFromDay d = y"
  using year_unique YearFromDay_bounds by blast

definition DayWithinYear :: "int \<Rightarrow> int" where
  "DayWithinYear d = d - DayFromYear (YearFromDay d)"

text \<open>The day of the year on which month \<open>m\<close> (0 to 11) starts; \<open>l\<close> is \<open>InLeapYear\<close>.\<close>

definition month_start :: "int \<Rightarrow> int \<Rightarrow> int" where
  "month_start l m =
     (if m = 0 then 0 else if m = 1 then 31 else if m = 2 then 59 + l
      else if m = 3 then 90 + l else if m = 4 then 120 + l else if m = 5 then 151 + l
      else if m = 6 then 181 + l else if m = 7 then 212 + l else if m = 8 then 243 + l
      else if m = 9 then 273 + l else if m = 10 then 304 + l else 334 + l)"

definition MonthFromDay :: "int \<Rightarrow> int" where
  "MonthFromDay d =
     (let l = InLeapYear (YearFromDay d); w = DayWithinYear d in
      if w < 31 then 0 else if w < 59 + l then 1 else if w < 90 + l then 2
      else if w < 120 + l then 3 else if w < 151 + l then 4 else if w < 181 + l then 5
      else if w < 212 + l then 6 else if w < 243 + l then 7 else if w < 273 + l then 8
      else if w < 304 + l then 9 else if w < 334 + l then 10 else 11)"

definition DateFromDay :: "int \<Rightarrow> int" where
  "DateFromDay d =
     DayWithinYear d - month_start (InLeapYear (YearFromDay d)) (MonthFromDay d) + 1"

text \<open>
  Calendar dates as the Gregorian calendar defines them, to state what the functions
  above compute: \<open>valid_date y m d\<close> with the month from 1 to 12, and the number of
  the day \<open>y-m-d\<close> counted from the epoch.
\<close>

definition leap_year :: "int \<Rightarrow> bool" where
  "leap_year y = (y mod 4 = 0 \<and> (y mod 100 \<noteq> 0 \<or> y mod 400 = 0))"

definition days_in_month :: "int \<Rightarrow> int \<Rightarrow> int" where
  "days_in_month y m =
     (if m = 2 then (if leap_year y then 29 else 28)
      else if m = 4 \<or> m = 6 \<or> m = 9 \<or> m = 11 then 30 else 31)"

definition valid_date :: "int \<Rightarrow> int \<Rightarrow> int \<Rightarrow> bool" where
  "valid_date y m d = (1 \<le> m \<and> m \<le> 12 \<and> 1 \<le> d \<and> d \<le> days_in_month y m)"

definition day_number :: "int \<Rightarrow> int \<Rightarrow> int \<Rightarrow> int" where
  "day_number y m d = DayFromYear y + month_start (InLeapYear y) (m - 1) + d - 1"

definition Day :: "real \<Rightarrow> int" where
  "Day t = floor (t / of_int DAY_MS)"

definition ToIntegerOrInfinity :: "real \<Rightarrow> int" where
  "ToIntegerOrInfinity r = (if 0 \<le> r then floor r else ceiling r)"

definition MakeFullYear :: "int \<Rightarrow> int" where
  "MakeFullYear y = (if 0 \<le> y \<and> y \<le> 99 then 1900 + y else y)"

definition MakeDay :: "int \<Rightarrow> int \<Rightarrow> int \<Rightarrow> int" where
  "MakeDay y m dt =
     (let ym = y + m div 12; mn = m mod 12
      in DayFromYear ym + month_start (InLeapYear ym) mn + dt - 1)"

definition TimeClip :: "jsnum \<Rightarrow> jsnum" where
  "TimeClip t =
     (case t of
        Fin r \<Rightarrow> if \<bar>r\<bar> > 8640000000000000 then NaN else Fin (of_int (ToIntegerOrInfinity r))
      | _ \<Rightarrow> NaN)"

text \<open>\<open>Date.UTC(year, month, date)\<close>: the time of day is midnight.\<close>

definition Date_UTC :: "jsnum \<Rightarrow> jsnum \<Rightarrow> jsnum \<Rightarrow> jsnum" where
  "Date_UTC year month date =
     (case (year, month, date) of
        (Fin y, Fin m, Fin dt) \<Rightarrow>
          TimeClip (Fin (of_int
            (MakeDay (MakeFullYear (ToIntegerOrInfinity y)) (ToIntegerOrInfinity m)
               (ToIntegerOrInfinity dt) * DAY_MS)))
      | _ \<Rightarrow> NaN)"

definition new_Date :: "jsnum \<Rightarrow> Date" where
  "new_Date v = TimeClip v"

definition getTime :: "Date \<Rightarrow> jsnum" where
  "getTime t = t"

definition getUTCFullYear :: "Date \<Rightarrow> jsnum" where
  "getUTCFullYear t = (case t of Fin r \<Rightarrow> Fin (of_int (YearFromDay (Day r))) | _ \<Rightarrow> NaN)"

definition getUTCMonth :: "Date \<Rightarrow> jsnum" where
  "getUTCMonth t = (case t of Fin r \<Rightarrow> Fin (of_int (MonthFromDay (Day r))) | _ \<Rightarrow> NaN)"

definition getUTCDate :: "Date \<Rightarrow> jsnum" where
  "getUTCDate t = (case t of Fin r \<Rightarrow> Fin (of_int (DateFromDay (Day r))) | _ \<Rightarrow> NaN)"

section \<open>Temporal decay: timestamps\<close>

definition parseMemoryDateFromPath :: "string \<Rightarrow> Date option" where
  "parseMemoryDateFromPath filePath =
     (case DATED_MEMORY_PATH_RE_exec (normalizePath filePath) of
        None \<Rightarrow> None
      | Some (g1, g2, g3) \<Rightarrow>
          let year = Number_of_digits g1;
              month = Number_of_digits g2;
              day = Number_of_digits g3
          in if \<not> Number_isInteger year \<or> \<not> Number_isInteger month \<or> \<not> Number_isInteger day
             then None
             else
               let timestamp = Date_UTC year (js_sub month (Fin 1)) day;
                   parsed = new_Date timestamp
               in if \<not> js_eq (getUTCFullYear parsed) year
                    \<or> \<not> js_eq (getUTCMonth parsed) (js_sub month (Fin 1))
                    \<or> \<not> js_eq (getUTCDate parsed) day
                  then None
                  else Some parsed)"

definition isEvergreenMemoryPath :: "string \<Rightarrow> bool" where
  "isEvergreenMemoryPath filePath =
     (let normalized = normalizePath filePath in
      if normalized = ''MEMORY.md'' \<or> normalized = ''memory.md'' then True
      else if \<not> (take 7 normalized = ''memory/'') then False
      else \<not> DATED_MEMORY_PATH_RE_test normalized)"

text \<open>
  The collaborators of the stage: \<open>path.isAbsolute\<close>, \<open>path.resolve\<close>, \<open>fs.stat\<close>
  (the \<open>mtimeMs\<close> of the file, or \<open>None\<close> when the call fails) and \<open>Date.now\<close>.
\<close>

record env =
  isAbsolute :: "string \<Rightarrow> bool"
  resolve :: "string \<Rightarrow> string \<Rightarrow> string"
  stat :: "string \<Rightarrow> jsnum option"
  Date_now :: jsnum

text \<open>
  \<open>extractTimestamp\<close> returns the timestamp and the list of the paths it passed to
  \<open>fs.stat\<close>. Its last part, from the test of \<open>workspaceDir\<close> on, is the fallback on
  the time of last modification; a \<open>workspaceDir\<close> that is \<open>undefined\<close> or empty is
  falsy.
\<close>

definition statTimestamp :: "env \<Rightarrow> string \<Rightarrow> string option \<Rightarrow> Date option \<times> string list" where
  "statTimestamp e filePath workspaceDir =
     (case workspaceDir of
        None \<Rightarrow> (None, [])
      | Some ws \<Rightarrow>
          if ws = [] then (None, [])
          else
            let absolutePath =
                  (if isAbsolute e filePath then filePath else resolve e ws filePath)
            in (case stat e absolutePath of
                  None \<Rightarrow> (None, [absolutePath])
                | Some mtimeMs \<Rightarrow>
                    if \<not> isFinite mtimeMs then (None, [absolutePath])
                    else (Some (new_Date mtimeMs), [absolutePath])))"

definition extractTimestamp ::
  "env \<Rightarrow> string \<Rightarrow> string option \<Rightarrow> string option \<Rightarrow> Date option \<times> string list" where
  "extractTimestamp e filePath src workspaceDir =
     (case parseMemoryDateFromPath filePath of
        Some fromPath \<Rightarrow> (Some fromPath, [])
      | None \<Rightarrow>
          if src = Some ''memory'' \<and> isEvergreenMemoryPath filePath then (None, [])
          else statTimestamp e filePath workspaceDir)"

definition ageInDaysFromTimestamp :: "Date \<Rightarrow> jsnum \<Rightarrow> jsnum" where
  "ageInDaysFromTimestamp timestamp nowMs =
     (let ageMs = Math_max2 (Fin 0) (js_sub nowMs (getTime timestamp))
      in js_div ageMs (Fin (of_int DAY_MS)))"

section \<open>Temporal decay: the batch\<close>

text \<open>
  A result of the hybrid search as the decay stage reads it. The configuration a
  caller passes is partial; it is merged over the defaults.
\<close>

record entry =
  path :: string
  score :: jsnum
  source :: string

record PartialTemporalDecayConfig =
  enabled_opt :: "bool option"
  halfLifeDays_opt :: "jsnum option"

record decay_params =
  results :: "entry list"
  temporalDecay :: "PartialTemporalDecayConfig option"
  workspaceDir :: "string option"
  nowMs :: "jsnum option"

definition merge_decay_config :: "PartialTemporalDecayConfig option \<Rightarrow> TemporalDecayConfig" where
  "merge_decay_config td =
     (case td of
        None \<Rightarrow> DEFAULT_TEMPORAL_DECAY_CONFIG
      | Some p \<Rightarrow>
          \<lparr>enabled = (case enabled_opt p of
                        None \<Rightarrow> enabled DEFAULT_TEMPORAL_DECAY_CONFIG | Some b \<Rightarrow> b),
           halfLifeDays = (case halfLifeDays_opt p of
                        None \<Rightarrow> halfLifeDays DEFAULT_TEMPORAL_DECAY_CONFIG | Some h \<Rightarrow> h)\<rparr>)"

definition cacheKey :: "entry \<Rightarrow> string" where
  "cacheKey x = source x @ '':'' @ path x"

text \<open>
  The callback of \<open>results.map\<close>, run over the batch in order; \<open>decay_one\<close> is its part
  after the \<open>await\<close>. Each callback runs up
  to its first \<open>await\<close> before the next one starts, so the cache of timestamp promises
  is read and written in the order of the batch, and \<open>fs.stat\<close> is called in that
  order. The state is the cache; the result is, for each entry, \<open>None\<close> when the
  callback returns the entry itself and \<open>Some\<close> of the new object otherwise, and the
  list of the paths passed to \<open>fs.stat\<close>.
\<close>

definition decay_one :: "jsnum \<Rightarrow> jsnum \<Rightarrow> Date option \<Rightarrow> entry \<Rightarrow> entry option" where
  "decay_one now hl timestamp x =
     (case timestamp of
        None \<Rightarrow> None
      | Some t \<Rightarrow>
          Some (x\<lparr>score :=
            applyTemporalDecayToScore (score x) (ageInDaysFromTimestamp t now) hl\<rparr>))"

fun decay_entries ::
  "env \<Rightarrow> string option \<Rightarrow> jsnum \<Rightarrow> jsnum \<Rightarrow> (string \<rightharpoonup> Date option) \<Rightarrow> entry list
   \<Rightarrow> entry option list \<times> string list" where
  "decay_entries e ws now hl cache [] = ([], [])"
| "decay_entries e ws now hl cache (x # xs) =
     (let (timestamp, calls, cache') =
            (case cache (cacheKey x) of
               Some t \<Rightarrow> (t, [], cache)
             | None \<Rightarrow>
                 let (t, calls) = extractTimestamp e (path x) (Some (source x)) ws
                 in (t, calls, cache(cacheKey x \<mapsto> t)));
          out = decay_one now hl timestamp x;
          (outs, calls') = decay_entries e ws now hl cache' xs
      in (out # outs, calls @ calls'))"

definition returned :: "'a list \<Rightarrow> 'a option list \<Rightarrow> 'a list" where
  "returned xs outs = map (\<lambda>(x, out). case out of None \<Rightarrow> x | Some y \<Rightarrow> y) (zip xs outs)"

text \<open>
  The stage on values: the returned entries and the paths passed to \<open>fs.stat\<close>.
\<close>

definition applyTemporalDecayToHybridResults ::
  "env \<Rightarrow> decay_params \<Rightarrow> entry list \<times> string list" where
  "applyTemporalDecayToHybridResults e params =
     (let config = merge_decay_config (temporalDecay params) in
      if \<not> enabled config then (results params, [])
      else
        let now = (case nowMs params of None \<Rightarrow> Date_now e | Some n \<Rightarrow> n);
            (outs, calls) =
              decay_entries e (workspaceDir params) now (halfLifeDays config) Map.empty
                (results params)
        in (returned (results params) outs, calls))"

text \<open>
  To state what the batch does: the timestamp an entry of the batch is decayed with.
  It is the one in the cache under the key of the entry, and otherwise the one
  \<open>extractTimestamp\<close> gives for the first entry of the batch that has this key.
\<close>

definition resolved_timestamp ::
  "env \<Rightarrow> string option \<Rightarrow> (string \<rightharpoonup> Date option) \<Rightarrow> entry list \<Rightarrow> entry \<Rightarrow> Date option" where
  "resolved_timestamp e ws cache xs x =
     (case cache (cacheKey x) of
        Some t \<Rightarrow> t
      | None \<Rightarrow>
          (case find (\<lambda>y. cacheKey y = cacheKey x) xs of
             Some y \<Rightarrow> fst (extractTimestamp e (path y) (Some (source y)) ws)
           | None \<Rightarrow> None))"

section \<open>Diversity reranking (MMR)\<close>

text \<open>
  The fields of an \<open>MMRItem\<close> are \<open>id\<close>, \<open>score\<close> and \<open>content\<close>; they carry the prefix
  \<open>item\<close> here.
\<close>

record MMRItem =
  item_id :: string
  item_score :: jsnum
  item_content :: string

record MMRConfig =
  mmr_enabled :: bool
  lambda :: jsnum

record PartialMMRConfig =
  mmr_enabled_opt :: "bool option"
  lambda_opt :: "jsnum option"

definition DEFAULT_MMR_CONFIG :: MMRConfig where
  "DEFAULT_MMR_CONFIG = \<lparr>mmr_enabled = False, lambda = Fin (7 / 10)\<rparr>"

subsection \<open>Tokens and similarity\<close>

text \<open>
  \<open>text.toLowerCase().match(/[a-z0-9_]+/g) ?? []\<close>, for a text of code units below 256:
  among those only the letters \<open>A\<close> to \<open>Z\<close> become a character of the class
  \<open>[a-z0-9_]\<close> by \<open>toLowerCase\<close>.
\<close>

definition toLowerCase_char :: "char \<Rightarrow> char" where
  "toLowerCase_char c =
     (case map_of (zip ''ABCDEFGHIJKLMNOPQRSTUVWXYZ'' ''abcdefghijklmnopqrstuvwxyz'') c of
        Some l \<Rightarrow> l
      | None \<Rightarrow> c)"

definition toLowerCase :: "string \<Rightarrow> string" where
  "toLowerCase s = map toLowerCase_char s"

definition is_word_char :: "char \<Rightarrow> bool" where
  "is_word_char c = (c \<in> set ''abcdefghijklmnopqrstuvwxyz0123456789_'')"

text \<open>All maximal runs of word characters, from left to right; \<open>cur\<close> is the run being read.\<close>

fun match_all :: "string \<Rightarrow> string \<Rightarrow> string list" where
  "match_all cur [] = (if cur = [] then [] else [cur])"
| "match_all cur (c # cs) =
     (if is_word_char c then match_all (cur @ [c]) cs
      else (if cur = [] then [] else [cur]) @ match_all [] cs)"

definition tokenize :: "string \<Rightarrow> string fset" where
  "tokenize text = fset_of_list (match_all [] (toLowerCase text))"

definition jaccardSimilarity :: "string fset \<Rightarrow> string fset \<Rightarrow> jsnum" where
  "jaccardSimilarity setA setB =
     (if fcard setA = 0 \<and> fcard setB = 0 then Fin 1
      else if fcard setA = 0 \<or> fcard setB = 0 then Fin 0
      else
        let smaller = (if fcard setA \<le> fcard setB then setA else setB);
            larger = (if fcard setA \<le> fcard setB then setB else setA);
            intersectionSize = fcard (ffilter (\<lambda>token. token |\<in>| larger) smaller);
            unionSize = fcard setA + fcard setB - intersectionSize
        in if unionSize = 0 then Fin 0
           else Fin (real intersectionSize / real unionSize))"

definition textSimilarity :: "string \<Rightarrow> string \<Rightarrow> jsnum" where
  "textSimilarity contentA contentB = jaccardSimilarity (tokenize contentA) (tokenize contentB)"

subsection \<open>The reranking\<close>

text \<open>
  The items are objects. Their type \<open>'t\<close> stands for the references to them: equality
  on \<open>'t\<close> is the identity of objects, and \<open>get\<close> reads the fields of the object behind
  a reference. A \<open>Set\<close> of objects is the list of its members in insertion order.
\<close>

definition Set_add :: "'t list \<Rightarrow> 't \<Rightarrow> 't list" where
  "Set_add s x = (if x \<in> set s then s else s @ [x])"

definition new_Set :: "'t list \<Rightarrow> 't list" where
  "new_Set xs = foldl Set_add [] xs"

definition Set_delete :: "'t list \<Rightarrow> 't \<Rightarrow> 't list" where
  "Set_delete s x = removeAll x s"

definition build_tokenCache :: "('t \<Rightarrow> MMRItem) \<Rightarrow> 't list \<Rightarrow> (string \<rightharpoonup> string fset)" where
  "build_tokenCache get items =
     foldl (\<lambda>cache item. cache(item_id (get item) \<mapsto> tokenize (item_content (get item))))
       Map.empty items"

definition cached_tokens :: "(string \<rightharpoonup> string fset) \<Rightarrow> MMRItem \<Rightarrow> string fset" where
  "cached_tokens tokenCache item =
     (case tokenCache (item_id item) of Some t \<Rightarrow> t | None \<Rightarrow> tokenize (item_content item))"

definition maxSimilarityToSelected ::
  "('t \<Rightarrow> MMRItem) \<Rightarrow> 't \<Rightarrow> 't list \<Rightarrow> (string \<rightharpoonup> string fset) \<Rightarrow> jsnum" where
  "maxSimilarityToSelected get item selectedItems tokenCache =
     (if length selectedItems = 0 then Fin 0
      else
        let itemTokens = cached_tokens tokenCache (get item)
        in foldl (\<lambda>maxSim selected.
                    let selectedTokens = cached_tokens tokenCache (get selected);
                        sim = jaccardSimilarity itemTokens selectedTokens
                    in if js_gt sim maxSim then sim else maxSim)
             (Fin 0) selectedItems)"

definition computeMMRScore :: "jsnum \<Rightarrow> jsnum \<Rightarrow> jsnum \<Rightarrow> jsnum" where
  "computeMMRScore relevance maxSimilarity lam =
     js_sub (js_mul lam relevance) (js_mul (js_sub (Fin 1) lam) maxSimilarity)"

definition normalizeScore :: "jsnum \<Rightarrow> jsnum \<Rightarrow> jsnum \<Rightarrow> jsnum" where
  "normalizeScore minScore scoreRange sc =
     (if js_eq scoreRange (Fin 0) then Fin 1
      else js_div (js_sub sc minScore) scoreRange)"

text \<open>
  One round of the inner \<open>for\<close> loop: the state is \<open>bestItem\<close> (\<open>None\<close> for \<open>null\<close>) and
  \<open>bestMMRScore\<close>.
\<close>

definition mmr_candidate ::
  "('t \<Rightarrow> MMRItem) \<Rightarrow> jsnum \<Rightarrow> jsnum \<Rightarrow> (string \<rightharpoonup> string fset) \<Rightarrow> jsnum \<Rightarrow> 't list
   \<Rightarrow> 't option \<times> jsnum \<Rightarrow> 't \<Rightarrow> 't option \<times> jsnum" where
  "mmr_candidate get minScore scoreRange tokenCache clampedLambda selected best candidate =
     (let bestItem = fst best;
          bestMMRScore = snd best;
          normalizedRelevance = normalizeScore minScore scoreRange (item_score (get candidate));
          maxSim = maxSimilarityToSelected get candidate selected tokenCache;
          mmrScore = computeMMRScore normalizedRelevance maxSim clampedLambda
      in if js_gt mmrScore bestMMRScore
            \<or> (js_eq mmrScore bestMMRScore
                \<and> js_gt (item_score (get candidate))
                     (case bestItem of None \<Rightarrow> NInf | Some b \<Rightarrow> item_score (get b)))
         then (Some candidate, mmrScore)
         else (bestItem, bestMMRScore))"

definition select_best ::
  "('t \<Rightarrow> MMRItem) \<Rightarrow> jsnum \<Rightarrow> jsnum \<Rightarrow> (string \<rightharpoonup> string fset) \<Rightarrow> jsnum \<Rightarrow> 't list
   \<Rightarrow> 't list \<Rightarrow> 't option" where
  "select_best get minScore scoreRange tokenCache clampedLambda selected remaining =
     fst (foldl (mmr_candidate get minScore scoreRange tokenCache clampedLambda selected)
            (None, NInf) remaining)"

lemma foldl_mmr_candidate_mem:
  "fst (foldl (mmr_candidate get mn rg tc lam sel) best cands) = Some b \<Longrightarrow>
   fst best = Some b \<or> b \<in> set cands"
proof (induction cands arbitrary: best)
  case Nil
  then show ?case by simp
next
  case (Cons c cands)
  from Cons.prems have
    "fst (foldl (mmr_candidate get mn rg tc lam sel) (mmr_candidate get mn rg tc lam sel best c) cands)
     = Some b" by simp
  then have "fst (mmr_candidate get mn rg tc lam sel best c) = Some b \<or> b \<in> set cands"
    by (rule Cons.IH)
  then show ?case
    by (auto simp add: mmr_candidate_def Let_def split: if_splits)
qed

lemma select_best_mem:
  "select_best get mn rg tc lam sel remaining = Some b \<Longrightarrow> b \<in> set remaining"
  unfolding select_best_def using foldl_mmr_candidate_mem [of get mn rg tc lam sel "(None, NInf)"]
  by fastforce

text \<open>The \<open>while\<close> loop: it ends when nothing remains, or at the \<open>break\<close>.\<close>

function mmr_loop ::
  "('t \<Rightarrow> MMRItem) \<Rightarrow> jsnum \<Rightarrow> jsnum \<Rightarrow> (string \<rightharpoonup> string fset) \<Rightarrow> jsnum \<Rightarrow> 't list
   \<Rightarrow> 't list \<Rightarrow> 't list" where
  "mmr_loop get minScore scoreRange tokenCache clampedLambda selected remaining =
     (if length remaining > 0 then
        (case select_best get minScore scoreRange tokenCache clampedLambda selected remaining of
           Some bestItem \<Rightarrow>
             mmr_loop get minScore scoreRange tokenCache clampedLambda
               (selected @ [bestItem]) (Set_delete remaining bestItem)
         | None \<Rightarrow> selected)
      else selected)"
  by pat_completeness auto
termination
proof (relation "measure (\<lambda>(get, mn, rg, tc, lam, selected, remaining). length remaining)")
  show "wf (measure (\<lambda>(get :: 't \<Rightarrow> MMRItem, mn :: jsnum, rg :: jsnum,
          tc :: string \<rightharpoonup> string fset, lam :: jsnum, selected :: 't list, remaining :: 't list).
          length remaining))"
    by simp
next
  fix get :: "'t \<Rightarrow> MMRItem" and mn rg lam :: jsnum and tc :: "string \<rightharpoonup> string fset"
    and selected remaining :: "'t list" and b :: 't
  assume "select_best get mn rg tc lam selected remaining = Some b"
  then have "b \<in> set remaining" by (rule select_best_mem)
  then have "length (removeAll b remaining) < length remaining"
    by (rule length_removeAll_less)
  then show "((get, mn, rg, tc, lam, selected @ [b], Set_delete remaining b),
              (get, mn, rg, tc, lam, selected, remaining))
             \<in> measure (\<lambda>(get, mn, rg, tc, lam, selected, remaining). length remaining)"
    by (simp add: Set_delete_def)
qed

declare mmr_loop.simps [simp del]

text \<open>The greedy selection: the part of \<open>mmrRerank\<close> after the shortcut for \<open>lambda = 1\<close>.\<close>

definition mmrGreedy :: "('t \<Rightarrow> MMRItem) \<Rightarrow> 't list \<Rightarrow> jsnum \<Rightarrow> 't list" where
  "mmrGreedy get items clampedLambda =
     (let tokenCache = build_tokenCache get items;
          maxScore = Math_max (map (\<lambda>i. item_score (get i)) items);
          minScore = Math_min (map (\<lambda>i. item_score (get i)) items);
          scoreRange = js_sub maxScore minScore
      in mmr_loop get minScore scoreRange tokenCache clampedLambda [] (new_Set items))"

text \<open>
  \<open>toSorted\<close> with a comparison function: a stable sort; a comparison that returns
  \<open>NaN\<close> counts as \<open>0\<close>. For a consistent comparison function every stable sort gives
  this result; for an inconsistent one (scores that are \<open>NaN\<close>) ECMAScript leaves the
  order to the implementation, and the model is this insertion sort.
\<close>

fun insort_cmp :: "('t \<Rightarrow> 't \<Rightarrow> jsnum) \<Rightarrow> 't \<Rightarrow> 't list \<Rightarrow> 't list" where
  "insort_cmp cmp x [] = [x]"
| "insort_cmp cmp x (y # ys) =
     (if js_gt (cmp x y) (Fin 0) then y # insort_cmp cmp x ys else x # y # ys)"

definition toSorted :: "('t \<Rightarrow> 't \<Rightarrow> jsnum) \<Rightarrow> 't list \<Rightarrow> 't list" where
  "toSorted cmp xs = foldr (insort_cmp cmp) xs []"

definition by_score_desc :: "('t \<Rightarrow> MMRItem) \<Rightarrow> 't \<Rightarrow> 't \<Rightarrow> jsnum" where
  "by_score_desc get a b = js_sub (item_score (get b)) (item_score (get a))"

definition mmrRerank :: "('t \<Rightarrow> MMRItem) \<Rightarrow> 't list \<Rightarrow> PartialMMRConfig \<Rightarrow> 't list" where
  "mmrRerank get items config =
     (let enabled = (case mmr_enabled_opt config of
                       None \<Rightarrow> mmr_enabled DEFAULT_MMR_CONFIG | Some b \<Rightarrow> b);
          lam = (case lambda_opt config of None \<Rightarrow> lambda DEFAULT_MMR_CONFIG | Some l \<Rightarrow> l)
      in if \<not> enabled \<or> length items \<le> 1 then items
         else
           let clampedLambda = Math_max2 (Fin 0) (Math_min2 (Fin 1) lam)
           in if js_eq clampedLambda (Fin 1) then toSorted (by_score_desc get) items
              else mmrGreedy get items clampedLambda)"

subsection \<open>The adapter for hybrid search results\<close>

text \<open>
  A hybrid search result as the adapter reads it. The field \<open>startLine\<close> is a number
  that the adapter only renders into the identifier of the item; the model keeps its
  rendered text. The index of the result is rendered in decimal.
\<close>

record hybrid =
  h_score :: jsnum
  snippet :: string
  h_path :: string
  startLine :: string

definition digit_char :: "nat \<Rightarrow> char" where
  "digit_char n = char_of (48 + n)"

fun string_of_nat :: "nat \<Rightarrow> string" where
  "string_of_nat n =
     (if n < 10 then [digit_char n] else string_of_nat (n div 10) @ [digit_char (n mod 10)])"

declare string_of_nat.simps [simp del]

definition mmr_id :: "hybrid \<Rightarrow> nat \<Rightarrow> string" where
  "mmr_id r index = h_path r @ '':'' @ startLine r @ '':'' @ string_of_nat index"

text \<open>
  The results are references of type \<open>'r\<close>, read through \<open>get\<close>. An MMR item the
  adapter creates is a new object: the pair of the index at which it was created and
  its fields, so that two of them are never the same object. The result holds, for
  each reranked item, what \<open>itemById.get\<close> returns: \<open>None\<close> for \<open>undefined\<close>.
\<close>

definition build_itemById :: "('r \<Rightarrow> hybrid) \<Rightarrow> 'r list \<Rightarrow> (string \<rightharpoonup> 'r)" where
  "build_itemById get rs =
     foldl (\<lambda>m (index, r). m(mmr_id (get r) index \<mapsto> r)) Map.empty (enumerate 0 rs)"

definition build_mmrItems :: "('r \<Rightarrow> hybrid) \<Rightarrow> 'r list \<Rightarrow> (nat \<times> MMRItem) list" where
  "build_mmrItems get rs =
     map (\<lambda>(index, r).
            (index, \<lparr>item_id = mmr_id (get r) index, item_score = h_score (get r),
                     item_content = snippet (get r)\<rparr>))
       (enumerate 0 rs)"

definition rerankHybrid ::
  "('r \<Rightarrow> hybrid) \<Rightarrow> 'r list \<Rightarrow> PartialMMRConfig \<Rightarrow> 'r option list" where
  "rerankHybrid get rs config =
     (let itemById = build_itemById get rs;
          mmrItems = build_mmrItems get rs;
          reranked = mmrRerank snd mmrItems config
      in map (\<lambda>item. itemById (item_id (snd item))) reranked)"

text \<open>
  \<open>applyMMRToHybridResults\<close> on values: an empty list of results is returned as it is,
  every other one goes through \<open>rerankHybrid\<close>, the part after the first test.
\<close>

definition applyMMRToHybridResults ::
  "('r \<Rightarrow> hybrid) \<Rightarrow> 'r list \<Rightarrow> PartialMMRConfig \<Rightarrow> 'r option list" where
  "applyMMRToHybridResults get rs config =
     (if length rs = 0 then map Some rs else rerankHybrid get rs config)"

section \<open>The stages on a store\<close>

text \<open>
  To say which arrays and objects a stage returns, reads and writes, the stages are
  given once more on a store: a list of objects and a list of arrays, each addressed
  by its position; an array holds values of type \<open>'v\<close>. Allocation appends. The stages
  write to no array and to no object that exists when they are called: the arrays,
  maps and sets they write to are their own.
\<close>

record ('o, 'v) store =
  objs :: "'o list"
  arrs :: "'v list list"

definition alloc_arr :: "('o, 'v) store \<Rightarrow> 'v list \<Rightarrow> ('o, 'v) store \<times> nat" where
  "alloc_arr st xs = (st\<lparr>arrs := arrs st @ [xs]\<rparr>, length (arrs st))"

definition alloc_obj :: "('o, 'v) store \<Rightarrow> 'o \<Rightarrow> ('o, 'v) store \<times> nat" where
  "alloc_obj st v = (st\<lparr>objs := objs st @ [v]\<rparr>, length (objs st))"

text \<open>
  \<open>mmrRerank\<close>: every path returns an array of its own (\<open>[...items]\<close>, the result of
  \<open>toSorted\<close>, or \<open>selected\<close>). The items are the references held by the array at
  address \<open>a\<close>.
\<close>

definition mmrRerank_st ::
  "(MMRItem, nat) store \<Rightarrow> nat \<Rightarrow> PartialMMRConfig \<Rightarrow> (MMRItem, nat) store \<times> nat" where
  "mmrRerank_st st a config =
     alloc_arr st (mmrRerank (\<lambda>r. objs st ! r) (arrs st ! a) config)"

text \<open>
  \<open>applyMMRToHybridResults\<close>: an empty array is returned itself; otherwise the result
  of \<open>reranked.map\<close> is a new array. The array holds references or \<open>undefined\<close>; reading
  a field of \<open>undefined\<close> is a \<open>TypeError\<close>.
\<close>

datatype js_error = TypeError

definition applyMMRToHybridResults_st ::
  "(hybrid, nat option) store \<Rightarrow> nat \<Rightarrow> PartialMMRConfig
   \<Rightarrow> js_error + (hybrid, nat option) store \<times> nat" where
  "applyMMRToHybridResults_st st a config =
     (let rs = arrs st ! a in
      if length rs = 0 then Inr (st, a)
      else if None \<in> set rs then Inl TypeError
      else Inr (alloc_arr st (rerankHybrid (\<lambda>r. objs st ! r) (map the rs) config)))"

text \<open>
  \<open>applyTemporalDecayToHybridResults\<close>: when the stage is disabled the result is
  \<open>[...params.results]\<close>; otherwise the callback returns the entry it was given or a
  new object \<open>{...entry, score}\<close>, and \<open>Promise.all\<close> gives a new array of them. The
  result is the store, the address of the returned array and the paths passed to
  \<open>fs.stat\<close>.
\<close>

fun store_entries ::
  "(entry, nat) store \<Rightarrow> nat list \<Rightarrow> entry option list \<Rightarrow> (entry, nat) store \<times> nat list" where
  "store_entries st (r # rs) (out # outs) =
     (case out of
        None \<Rightarrow> (let (st', refs) = store_entries st rs outs in (st', r # refs))
      | Some v \<Rightarrow>
          (let (st1, r') = alloc_obj st v;
               (st', refs) = store_entries st1 rs outs
           in (st', r' # refs)))"
| "store_entries st rs outs = (st, [])"

definition applyTemporalDecayToHybridResults_st ::
  "env \<Rightarrow> (entry, nat) store \<Rightarrow> nat \<Rightarrow> PartialTemporalDecayConfig option \<Rightarrow> string option
   \<Rightarrow> jsnum option \<Rightarrow> ((entry, nat) store \<times> nat) \<times> string list" where
  "applyTemporalDecayToHybridResults_st e st a td ws nowOpt =
     (let config = merge_decay_config td;
          refs = arrs st ! a
      in if \<not> enabled config then (alloc_arr st refs, [])
         else
           let now = (case nowOpt of None \<Rightarrow> Date_now e | Some n \<Rightarrow> n);
               (outs, calls) =
                 decay_entries e ws now (halfLifeDays config) Map.empty
                   (map (\<lambda>r. objs st ! r) refs);
               (st', refs') = store_entries st refs outs
           in (alloc_arr st' refs', calls))"

section \<open>Lemmas: numbers\<close>

lemma js_le_Fin [simp]: "js_le (Fin a) (Fin b) = (a \<le> b)"
  by (auto simp add: js_le_def js_eq_def)

lemma js_eq_Fin [simp]: "js_eq (Fin a) (Fin b) = (a = b)"
  by (simp add: js_eq_def)

lemma js_gt_Fin [simp]: "js_gt (Fin a) (Fin b) = (b < a)"
  by (simp add: js_gt_def)

lemma fl_Fin: "\<bar>x\<bar> < overflow_bound \<Longrightarrow> fl x = Fin x"
  by (auto simp add: fl_def)

lemma overflow_bound_large: "10 ^ 18 < overflow_bound"
  by (simp add: overflow_bound_def)

lemma overflow_bound_numeral [code]:
  "overflow_bound = 179769313486231580793728971405303415079934132710037826936173778980444968292764750946649017977587207096330286416692887910946555547851940402630657488671505820681908902000708383676273854845817711531764475730270069855571366959622842914819860834936475292719074168444365510704342711559699508093042880177904174497792"
  by (simp add: overflow_bound_def)

lemma fl_small [simp]: "\<bar>x\<bar> \<le> 10 ^ 18 \<Longrightarrow> fl x = Fin x"
  using overflow_bound_large by (intro fl_Fin) linarith

lemma js_sub_Fin: "js_sub (Fin a) (Fin b) = fl (a - b)"
  by (simp add: js_sub_def)

lemma ToIntegerOrInfinity_of_int [simp]: "ToIntegerOrInfinity (of_int k) = k"
  by (simp add: ToIntegerOrInfinity_def)

lemma Number_isInteger_digits [simp]: "Number_isInteger (Number_of_digits s)"
  by (simp add: Number_isInteger_def Number_of_digits_def)

lemma digits_to_nat_snoc: "digits_to_nat (s @ [c]) = 10 * digits_to_nat s + digit_value c"
  by (simp add: digits_to_nat_def)

lemma digit_value_le: "is_digit c \<Longrightarrow> digit_value c \<le> 9"
  by (auto simp add: is_digit_def digit_value_def)

lemma digits_to_nat_less: "list_all is_digit s \<Longrightarrow> digits_to_nat s < 10 ^ length s"
proof (induction s rule: rev_induct)
  case Nil
  then show ?case by (simp add: digits_to_nat_def)
next
  case (snoc c s)
  then have "digits_to_nat s < 10 ^ length s" "digit_value c \<le> 9"
    by (simp_all add: digit_value_le)
  then have "10 * digits_to_nat s + digit_value c < 10 * 10 ^ length s" by linarith
  then show ?case by (simp add: digits_to_nat_snoc)
qed

lemma Day_of_day: "Day (of_int (n * DAY_MS)) = n"
  by (simp add: Day_def DAY_MS_def)

lemma DayFromYear_abs: "\<bar>DayFromYear y\<bar> \<le> 366 * \<bar>y - 1970\<bar>"
proof (cases "1970 \<le> y")
  case True
  then show ?thesis
    using DayFromYear_add [of 1970 "nat (y - 1970)"] by (simp add: DayFromYear_1970)
next
  case False
  then show ?thesis
    using DayFromYear_add [of y "nat (1970 - y)"] by (simp add: DayFromYear_1970)
qed

lemma month_start_bounds: "0 \<le> l \<Longrightarrow> l \<le> 1 \<Longrightarrow> 0 \<le> month_start l m \<and> month_start l m \<le> 335"
  by (simp add: month_start_def)

lemma InLeapYear_bounds: "0 \<le> InLeapYear y" "InLeapYear y \<le> 1"
  by (simp_all add: InLeapYear_def DaysInYear_def)

lemma MakeDay_abs:
  assumes "0 \<le> y" "y \<le> 9999" "- 1 \<le> m" "m \<le> 98" "0 \<le> dt" "dt \<le> 99"
  shows "\<bar>MakeDay (MakeFullYear y) m dt\<bar> \<le> 10000000"
proof -
  let ?ym = "MakeFullYear y + m div 12"
  have "- 1 \<le> m div 12" "m div 12 \<le> 8" using assms by simp_all
  moreover have "0 \<le> MakeFullYear y" "MakeFullYear y \<le> 9999" using assms by (simp_all add: MakeFullYear_def)
  ultimately have "\<bar>?ym - 1970\<bar> \<le> 9000" by linarith
  then have "366 * \<bar>?ym - 1970\<bar> \<le> 366 * 9000" by simp
  then have "\<bar>DayFromYear ?ym\<bar> \<le> 366 * 9000" using DayFromYear_abs [of ?ym] by (rule order_trans[rotated])
  moreover have "0 \<le> month_start (InLeapYear ?ym) (m mod 12) \<and> month_start (InLeapYear ?ym) (m mod 12) \<le> 335"
    by (rule month_start_bounds) (rule InLeapYear_bounds)+
  ultimately show ?thesis using assms unfolding MakeDay_def Let_def abs_le_iff by linarith
qed

lemma TimeClip_day: "\<bar>n\<bar> \<le> 10000000 \<Longrightarrow> TimeClip (Fin (of_int (n * DAY_MS))) = Fin (of_int (n * DAY_MS))"
proof -
  assume a: "\<bar>n\<bar> \<le> 10000000"
  have "\<bar>n * DAY_MS\<bar> \<le> 10000000 * 86400000" using a by (simp add: DAY_MS_def abs_mult)
  then have "\<bar>n * DAY_MS\<bar> \<le> 8640000000000000" by simp
  then have "\<bar>real_of_int (n * DAY_MS)\<bar> \<le> 8640000000000000"
    by (metis of_int_abs of_int_le_iff of_int_numeral)
  then show ?thesis unfolding TimeClip_def by (simp del: of_int_mult)
qed

section \<open>Lemmas: the decay multiplier\<close>

lemma Math_max2_Fin [simp]: "Math_max2 (Fin a) (Fin b) = Fin (max a b)"
  by (simp add: Math_max2_def max_def)

lemma Math_min2_Fin [simp]: "Math_min2 (Fin a) (Fin b) = Fin (min a b)"
  by (auto simp add: Math_min2_def min_def)

lemma ln_2_bounds: "1 / 2 \<le> ln (2::real)" "ln (2::real) < 1"
proof -
  have "(exp (1 / 2 :: real)) ^ 2 = exp 1"
    by (simp add: exp_of_nat_mult [symmetric] del: exp_of_nat_mult)
  then have "(exp (1 / 2 :: real)) ^ 2 \<le> 2 ^ 2" using exp_le by simp
  then have "exp (1 / 2 :: real) \<le> 2" by (rule power2_le_imp_le) simp
  then have "ln (exp (1 / 2 :: real)) \<le> ln 2" by (subst ln_le_cancel_iff) simp_all
  then show "1 / 2 \<le> ln (2::real)" by simp
  show "ln (2::real) < 1" by (rule ln_2_less_1)
qed

lemma toDecayLambda_cases:
  "toDecayLambda h = Fin 0 \<or> (\<exists>H>0. h = Fin H \<and> toDecayLambda h = fl (ln 2 / H))"
  by (cases h) (auto simp add: toDecayLambda_def Math_LN2_def js_le_def js_eq_def)

lemma toDecayLambda_nonneg:
  "toDecayLambda h = PInf \<or> (\<exists>l. toDecayLambda h = Fin l \<and> 0 \<le> l)"
proof -
  consider "toDecayLambda h = Fin 0" | H where "0 < H" "toDecayLambda h = fl (ln 2 / H)"
    using toDecayLambda_cases by blast
  then show ?thesis
  proof cases
    case 1
    then show ?thesis by simp
  next
    case 2
    have "0 < ln 2 / H" using 2(1) by simp
    moreover have "0 < overflow_bound" by (simp add: overflow_bound_def)
    ultimately show ?thesis using 2(2) by (auto simp add: fl_def)
  qed
qed

lemma multiplier_bad_halflife:
  "\<not> isFinite h \<or> js_le h (Fin 0) \<Longrightarrow> calculateTemporalDecayMultiplier a h = Fin 1"
  by (auto simp add: calculateTemporalDecayMultiplier_def Let_def toDecayLambda_def)

lemma multiplier_nonfinite_age:
  assumes "a = PInf \<or> a = NaN" shows "calculateTemporalDecayMultiplier a h = Fin 1"
  using assms by (auto simp add: calculateTemporalDecayMultiplier_def Let_def Math_max2_def)

lemma multiplier_age_zero:
  assumes "isFinite (toDecayLambda h)"
  shows "calculateTemporalDecayMultiplier (Fin 0) h = Fin 1"
proof -
  obtain l where l: "toDecayLambda h = Fin l" using assms by (cases "toDecayLambda h") simp_all
  show ?thesis by (simp add: calculateTemporalDecayMultiplier_def Let_def l)
qed

lemma multiplier_neg_infinity:
  assumes "isFinite (toDecayLambda h)"
  shows "calculateTemporalDecayMultiplier NInf h = Fin 1"
proof -
  obtain l where l: "toDecayLambda h = Fin l" using assms by (cases "toDecayLambda h") simp_all
  show ?thesis by (simp add: calculateTemporalDecayMultiplier_def Let_def l Math_max2_def)
qed

lemma toDecayLambda_30: "toDecayLambda (Fin 30) = Fin (ln 2 / 30)"
proof -
  have "\<bar>ln 2 / 30\<bar> \<le> (10::real) ^ 18" using ln_2_bounds by simp
  then show ?thesis by (simp add: toDecayLambda_def Math_LN2_def)
qed

lemma multiplier_30_30: "calculateTemporalDecayMultiplier (Fin 30) (Fin 30) = Fin (1 / 2)"
proof -
  have p: "\<not> ln 2 / 30 \<le> (0::real)" using ln_2_bounds by simp
  have m: "\<bar>ln (2::real)\<bar> \<le> 10 ^ 18" using ln_2_bounds by simp
  have e: "exp (- ln (2::real)) = 1 / 2" by (simp add: exp_minus inverse_eq_divide)
  have u: "\<not> (1 / 2 \<le> 1 / (2::real) ^ 1075)" by simp
  show ?thesis
    using p m u by (simp add: calculateTemporalDecayMultiplier_def Let_def toDecayLambda_30 e)
qed

text \<open>
  The smallest positive double as a half-life: \<open>Math.LN2 / halfLifeDays\<close> overflows.
\<close>

lemma toDecayLambda_overflow: "toDecayLambda (Fin MIN_VALUE) = PInf"
proof -
  have "(2::real) ^ 1073 \<le> ln 2 * 2 ^ 1074" using ln_2_bounds(1) by simp
  moreover have "overflow_bound \<le> 2 ^ 1073" by (simp add: overflow_bound_def)
  ultimately have "overflow_bound \<le> ln 2 * 2 ^ 1074" by linarith
  then have "overflow_bound \<le> ln 2 / MIN_VALUE" by (simp add: MIN_VALUE_def)
  moreover have "0 < MIN_VALUE" by (simp add: MIN_VALUE_def)
  ultimately show ?thesis by (simp add: toDecayLambda_def Math_LN2_def fl_def)
qed

lemma multiplier_overflow:
  "calculateTemporalDecayMultiplier NInf (Fin MIN_VALUE) = NaN"
  "calculateTemporalDecayMultiplier (Fin 0) (Fin MIN_VALUE) = NaN"
  by (simp_all add: calculateTemporalDecayMultiplier_def Let_def toDecayLambda_overflow
      Math_max2_def js_le_def js_eq_def inf_of_sign_def)

section \<open>Lemmas: calendar\<close>

lemma InLeapYear_leap: "InLeapYear y = (if leap_year y then 1 else 0)"
proof (cases "y mod 4 = 0")
  case False
  then show ?thesis by (simp add: InLeapYear_def DaysInYear_def leap_year_def)
next
  case 4: True
  show ?thesis
  proof (cases "y mod 100 = 0")
    case False
    then show ?thesis using 4 by (simp add: InLeapYear_def DaysInYear_def leap_year_def)
  next
    case True
    then show ?thesis using 4 by (simp add: InLeapYear_def DaysInYear_def leap_year_def)
  qed
qed

lemma month_cases: "1 \<le> (m::int) \<Longrightarrow> m \<le> 12 \<Longrightarrow>
  m = 1 \<or> m = 2 \<or> m = 3 \<or> m = 4 \<or> m = 5 \<or> m = 6 \<or> m = 7 \<or> m = 8 \<or> m = 9 \<or> m = 10 \<or> m = 11 \<or> m = 12"
  by arith

lemma DaysInYear_leap: "DaysInYear y = 365 + InLeapYear y"
  by (simp add: InLeapYear_def)

lemma month_cases0: "0 \<le> (m::int) \<Longrightarrow> m \<le> 11 \<Longrightarrow>
  m = 0 \<or> m = 1 \<or> m = 2 \<or> m = 3 \<or> m = 4 \<or> m = 5 \<or> m = 6 \<or> m = 7 \<or> m = 8 \<or> m = 9 \<or> m = 10 \<or> m = 11"
  by arith

lemma month_start_simps:
  "month_start l 0 = 0" "month_start l 1 = 31" "month_start l 2 = 59 + l"
  "month_start l 3 = 90 + l" "month_start l 4 = 120 + l" "month_start l 5 = 151 + l"
  "month_start l 6 = 181 + l" "month_start l 7 = 212 + l" "month_start l 8 = 243 + l"
  "month_start l 9 = 273 + l" "month_start l 10 = 304 + l" "month_start l 11 = 334 + l"
  by (simp_all add: month_start_def)

lemma days_in_month_simps:
  "days_in_month y 1 = 31" "days_in_month y 2 = 28 + InLeapYear y" "days_in_month y 3 = 31"
  "days_in_month y 4 = 30" "days_in_month y 5 = 31" "days_in_month y 6 = 30"
  "days_in_month y 7 = 31" "days_in_month y 8 = 31" "days_in_month y 9 = 30"
  "days_in_month y 10 = 31" "days_in_month y 11 = 30" "days_in_month y 12 = 31"
  by (simp_all add: days_in_month_def InLeapYear_leap)

lemma month_start_fits:
  assumes "valid_date y m d"
  shows "0 \<le> month_start (InLeapYear y) (m - 1) + d - 1 \<and>
         month_start (InLeapYear y) (m - 1) + d - 1 < DaysInYear y"
proof -
  from assms have "1 \<le> m" "m \<le> 12" by (simp_all add: valid_date_def)
  then have "m = 1 \<or> m = 2 \<or> m = 3 \<or> m = 4 \<or> m = 5 \<or> m = 6 \<or> m = 7 \<or> m = 8 \<or> m = 9 \<or> m = 10 \<or> m = 11 \<or> m = 12"
    by (rule month_cases)
  then show ?thesis using assms InLeapYear_bounds [of y]
    by (elim disjE)
       (simp_all add: DaysInYear_leap valid_date_def days_in_month_simps month_start_simps)
qed


lemma MonthFromDay_eq:
  assumes "YearFromDay n = y" "DayWithinYear n = month_start (InLeapYear y) (m - 1) + d - 1"
      and "valid_date y m d"
  shows "MonthFromDay n = m - 1"
proof -
  from assms have "1 \<le> m" "m \<le> 12" by (simp_all add: valid_date_def)
  then have "m = 1 \<or> m = 2 \<or> m = 3 \<or> m = 4 \<or> m = 5 \<or> m = 6 \<or> m = 7 \<or> m = 8 \<or> m = 9 \<or> m = 10 \<or> m = 11 \<or> m = 12"
    by (rule month_cases)
  then show ?thesis using assms InLeapYear_bounds [of y]
    by (elim disjE)
       (simp_all add: MonthFromDay_def Let_def valid_date_def days_in_month_simps month_start_simps)
qed


lemma YearFromDay_day_number: "valid_date y m d \<Longrightarrow> YearFromDay (day_number y m d) = y"
  using month_start_fits [of y m d]
  by (intro YearFromDay_eq) (simp_all add: DayFromYear_Suc day_number_def)

lemma DayWithinYear_day_number:
  "valid_date y m d \<Longrightarrow>
   DayWithinYear (day_number y m d) = month_start (InLeapYear y) (m - 1) + d - 1"
  by (simp add: DayWithinYear_def YearFromDay_day_number) (simp add: day_number_def)

lemma MonthFromDay_day_number: "valid_date y m d \<Longrightarrow> MonthFromDay (day_number y m d) = m - 1"
  by (rule MonthFromDay_eq [of _ y m d]) (simp_all add: YearFromDay_day_number DayWithinYear_day_number)

lemma DateFromDay_day_number: "valid_date y m d \<Longrightarrow> DateFromDay (day_number y m d) = d"
  by (simp add: DateFromDay_def MonthFromDay_day_number YearFromDay_day_number DayWithinYear_day_number)

lemma DayWithinYear_bounds: "0 \<le> DayWithinYear n \<and> DayWithinYear n < DaysInYear (YearFromDay n)"
  using YearFromDay_bounds [of n] by (simp add: DayWithinYear_def DayFromYear_Suc)

lemma fields_valid: "valid_date (YearFromDay n) (MonthFromDay n + 1) (DateFromDay n)"
proof -
  define l where "l = InLeapYear (YearFromDay n)"
  define w where "w = DayWithinYear n"
  have l: "0 \<le> l" "l \<le> 1" by (simp_all add: l_def InLeapYear_bounds)
  have w: "0 \<le> w" "w < 365 + l"
    using DayWithinYear_bounds [of n] by (simp_all add: w_def l_def DaysInYear_leap)
  have dim2: "days_in_month (YearFromDay n) 2 = 28 + l" by (simp add: days_in_month_simps l_def)
  consider "w < 31" | "31 \<le> w" "w < 59 + l" | "59 + l \<le> w" "w < 90 + l"
    | "90 + l \<le> w" "w < 120 + l" | "120 + l \<le> w" "w < 151 + l" | "151 + l \<le> w" "w < 181 + l"
    | "181 + l \<le> w" "w < 212 + l" | "212 + l \<le> w" "w < 243 + l" | "243 + l \<le> w" "w < 273 + l"
    | "273 + l \<le> w" "w < 304 + l" | "304 + l \<le> w" "w < 334 + l" | "334 + l \<le> w"
    by linarith
  then show ?thesis
  proof cases
    case 1
    then have "MonthFromDay n = 0" by (simp add: MonthFromDay_def Let_def w_def)
    then show ?thesis using 1 w
      by (simp add: valid_date_def DateFromDay_def month_start_simps days_in_month_simps w_def [symmetric])
  next
    case 2
    then have "MonthFromDay n = 1" using l by (simp add: MonthFromDay_def Let_def w_def l_def)
    then show ?thesis using 2 w dim2
      by (simp add: valid_date_def DateFromDay_def month_start_simps w_def [symmetric])
  next
    case 3
    then have "MonthFromDay n = 2" using l by (simp add: MonthFromDay_def Let_def w_def l_def)
    then show ?thesis using 3 w
      by (simp add: valid_date_def DateFromDay_def month_start_simps days_in_month_simps w_def [symmetric] l_def [symmetric])
  next
    case 4
    then have "MonthFromDay n = 3" using l by (simp add: MonthFromDay_def Let_def w_def l_def)
    then show ?thesis using 4 w
      by (simp add: valid_date_def DateFromDay_def month_start_simps days_in_month_simps w_def [symmetric] l_def [symmetric])
  next
    case 5
    then have "MonthFromDay n = 4" using l by (simp add: MonthFromDay_def Let_def w_def l_def)
    then show ?thesis using 5 w
      by (simp add: valid_date_def DateFromDay_def month_start_simps days_in_month_simps w_def [symmetric] l_def [symmetric])
  next
    case 6
    then have "MonthFromDay n = 5" using l by (simp add: MonthFromDay_def Let_def w_def l_def)
    then show ?thesis using 6 w
      by (simp add: valid_date_def DateFromDay_def month_start_simps days_in_month_simps w_def [symmetric] l_def [symmetric])
  next
    case 7
    then have "MonthFromDay n = 6" using l by (simp add: MonthFromDay_def Let_def w_def l_def)
    then show ?thesis using 7 w
      by (simp add: valid_date_def DateFromDay_def month_start_simps days_in_month_simps w_def [symmetric] l_def [symmetric])
  next
    case 8
    then have "MonthFromDay n = 7" using l by (simp add: MonthFromDay_def Let_def w_def l_def)
    then show ?thesis using 8 w
      by (simp add: valid_date_def DateFromDay_def month_start_simps days_in_month_simps w_def [symmetric] l_def [symmetric])
  next
    case 9
    then have "MonthFromDay n = 8" using l by (simp add: MonthFromDay_def Let_def w_def l_def)
    then show ?thesis using 9 w
      by (simp add: valid_date_def DateFromDay_def month_start_simps days_in_month_simps w_def [symmetric] l_def [symmetric])
  next
    case 10
    then have "MonthFromDay n = 9" using l by (simp add: MonthFromDay_def Let_def w_def l_def)
    then show ?thesis using 10 w
      by (simp add: valid_date_def DateFromDay_def month_start_simps days_in_month_simps w_def [symmetric] l_def [symmetric])
  next
    case 11
    then have "MonthFromDay n = 10" using l by (simp add: MonthFromDay_def Let_def w_def l_def)
    then show ?thesis using 11 w
      by (simp add: valid_date_def DateFromDay_def month_start_simps days_in_month_simps w_def [symmetric] l_def [symmetric])
  next
    case 12
    then have "MonthFromDay n = 11" using l by (simp add: MonthFromDay_def Let_def w_def l_def)
    then show ?thesis using 12 w
      by (simp add: valid_date_def DateFromDay_def month_start_simps days_in_month_simps w_def [symmetric] l_def [symmetric])
  qed
qed

lemma fields_day_number: "day_number (YearFromDay n) (MonthFromDay n + 1) (DateFromDay n) = n"
  by (simp add: day_number_def DateFromDay_def DayWithinYear_def)

lemma exec_SomeD:
  "DATED_MEMORY_PATH_RE_exec s = Some (g1, g2, g3) \<Longrightarrow>
   length g1 = 4 \<and> list_all is_digit g1 \<and> length g2 = 2 \<and> list_all is_digit g2 \<and>
   length g3 = 2 \<and> list_all is_digit g3"
  by (auto simp add: DATED_MEMORY_PATH_RE_exec_def Let_def split: if_splits)

lemma exec_shape:
  assumes pre: "pre = [] \<or> last pre = CHR ''/''"
      and g: "length g1 = 4" "list_all is_digit g1" "length g2 = 2" "list_all is_digit g2"
             "length g3 = 2" "list_all is_digit g3"
  shows "DATED_MEMORY_PATH_RE_exec (pre @ ''memory/'' @ g1 @ ''-'' @ g2 @ ''-'' @ g3 @ ''.md'')
         = Some (g1, g2, g3)"
proof -
  obtain a b c d where g1: "g1 = [a, b, c, d]"
    using g(1) by (auto simp add: length_Suc_conv numeral_eq_Suc)
  obtain e f where g2: "g2 = [e, f]"
    using g(3) by (auto simp add: length_Suc_conv numeral_eq_Suc)
  obtain h i where g3: "g3 = [h, i]"
    using g(5) by (auto simp add: length_Suc_conv numeral_eq_Suc)
  let ?t = "''memory/'' @ g1 @ ''-'' @ g2 @ ''-'' @ g3 @ ''.md''"
  have len: "length ?t = 20" by (simp add: g1 g2 g3)
  have ctx: "length (pre @ ?t) = 20 \<or> (pre @ ?t) ! (length (pre @ ?t) - 21) = CHR ''/''"
  proof (cases "pre = []")
    case True
    then show ?thesis using len by simp
  next
    case False
    then have "pre ! (length pre - 1) = CHR ''/''" using pre by (simp add: last_conv_nth)
    moreover have i: "length (pre @ ?t) - 21 = length pre - 1" using len False by simp
    moreover have "(pre @ ?t) ! (length pre - 1) = pre ! (length pre - 1)"
      using False by (simp add: nth_append)
    ultimately have "(pre @ ?t) ! (length (pre @ ?t) - 21) = CHR ''/''" by (simp only:)
    then show ?thesis by (rule disjI2)
  qed
  have dr: "drop (length (pre @ ?t) - 20) (pre @ ?t) = ?t" using len by simp
  have n: "\<not> length (pre @ ?t) < 20" using len by simp
  show ?thesis
    unfolding DATED_MEMORY_PATH_RE_exec_def Let_def dr
    using ctx n g(2,4,6) by (simp add: g1 g2 g3)
qed

lemma ToIntegerOrInfinity_of_nat [simp]: "ToIntegerOrInfinity (real n) = int n"
  by (simp add: ToIntegerOrInfinity_def)

lemma Day_time: "Day (real_of_int (n * DAY_MS)) = n"
  by (simp add: Day_def DAY_MS_def)

lemma parse_eq:
  assumes ex: "DATED_MEMORY_PATH_RE_exec (normalizePath p) = Some (g1, g2, g3)"
  defines "Y \<equiv> int (digits_to_nat g1)" and "M \<equiv> int (digits_to_nat g2)"
      and "D \<equiv> int (digits_to_nat g3)"
  defines "N \<equiv> MakeDay (MakeFullYear Y) (M - 1) D"
  shows "parseMemoryDateFromPath p =
     (if YearFromDay N = Y \<and> MonthFromDay N = M - 1 \<and> DateFromDay N = D
      then Some (Fin (of_int (N * DAY_MS))) else None)"
proof -
  from exec_SomeD [OF ex] have
    "digits_to_nat g1 < 10 ^ 4" "digits_to_nat g2 < 10 ^ 2" "digits_to_nat g3 < 10 ^ 2"
    using digits_to_nat_less [of g1] digits_to_nat_less [of g2] digits_to_nat_less [of g3]
    by auto
  then have b: "0 \<le> Y" "Y \<le> 9999" "- 1 \<le> M - 1" "M - 1 \<le> 98" "0 \<le> D" "D \<le> 99"
    by (simp_all add: Y_def M_def D_def)
  have clip: "TimeClip (Fin (of_int (N * DAY_MS))) = Fin (of_int (N * DAY_MS))"
    unfolding N_def by (rule TimeClip_day) (rule MakeDay_abs [OF b])
  have utc: "Date_UTC (Fin (of_int Y)) (Fin (of_int (M - 1))) (Fin (of_int D))
             = Fin (of_int (N * DAY_MS))"
    unfolding Date_UTC_def using clip by (simp add: N_def del: of_int_mult of_int_diff)
  have ny: "Number_of_digits g1 = Fin (of_int Y)" "js_sub (Number_of_digits g2) (Fin 1) = Fin (of_int (M - 1))"
    "Number_of_digits g3 = Fin (of_int D)"
    using b(3,4) by (simp_all add: Number_of_digits_def Y_def M_def D_def js_sub_Fin)
  have nd: "new_Date (Fin (of_int (N * DAY_MS))) = Fin (of_int (N * DAY_MS))"
    unfolding new_Date_def by (rule clip)
  show ?thesis
    unfolding parseMemoryDateFromPath_def ex
    by (simp add: Let_def utc nd getUTCFullYear_def getUTCMonth_def getUTCDate_def Day_time ny
             del: of_int_mult of_int_diff)
qed

lemma parse_valid:
  assumes ex: "DATED_MEMORY_PATH_RE_exec (normalizePath p) = Some (g1, g2, g3)"
      and v: "valid_date (int (digits_to_nat g1)) (int (digits_to_nat g2)) (int (digits_to_nat g3))"
      and y: "100 \<le> digits_to_nat g1"
  shows "parseMemoryDateFromPath p =
     Some (Fin (of_int (day_number (int (digits_to_nat g1)) (int (digits_to_nat g2)) (int (digits_to_nat g3)) * DAY_MS)))"
proof -
  let ?Y = "int (digits_to_nat g1)" and ?M = "int (digits_to_nat g2)" and ?D = "int (digits_to_nat g3)"
  have m: "0 \<le> ?M - 1" "?M - 1 < 12" using v by (simp_all add: valid_date_def)
  then have "(?M - 1) div 12 = 0" "(?M - 1) mod 12 = ?M - 1" by simp_all
  then have N: "MakeDay (MakeFullYear ?Y) (?M - 1) ?D = day_number ?Y ?M ?D"
    using y by (simp add: MakeDay_def MakeFullYear_def day_number_def Let_def)
  show ?thesis
    unfolding parse_eq [OF ex] N
    using v by (simp add: YearFromDay_day_number MonthFromDay_day_number DateFromDay_day_number)
qed

lemma parse_invalid:
  assumes ex: "DATED_MEMORY_PATH_RE_exec (normalizePath p) = Some (g1, g2, g3)"
      and v: "\<not> valid_date (int (digits_to_nat g1)) (int (digits_to_nat g2)) (int (digits_to_nat g3))"
  shows "parseMemoryDateFromPath p = None"
proof -
  let ?Y = "int (digits_to_nat g1)" and ?M = "int (digits_to_nat g2)" and ?D = "int (digits_to_nat g3)"
  let ?N = "MakeDay (MakeFullYear ?Y) (?M - 1) ?D"
  have "\<not> (YearFromDay ?N = ?Y \<and> MonthFromDay ?N = ?M - 1 \<and> DateFromDay ?N = ?D)"
  proof
    assume a: "YearFromDay ?N = ?Y \<and> MonthFromDay ?N = ?M - 1 \<and> DateFromDay ?N = ?D"
    have "valid_date (YearFromDay ?N) (MonthFromDay ?N + 1) (DateFromDay ?N)" by (rule fields_valid)
    then show False using a v by simp
  qed
  then show ?thesis unfolding parse_eq [OF ex] by simp
qed

lemma parse_no_match:
  "DATED_MEMORY_PATH_RE_exec (normalizePath p) = None \<Longrightarrow> parseMemoryDateFromPath p = None"
  by (simp add: parseMemoryDateFromPath_def)

section \<open>Lemmas: similarity\<close>

lemma ffilter_mem: "ffilter (\<lambda>t. t |\<in>| L) S = S |\<inter>| L"
  by auto

lemma jaccard_nonempty:
  assumes "A \<noteq> {||}" "B \<noteq> {||}"
  shows "jaccardSimilarity A B = Fin (real (fcard (A |\<inter>| B)) / real (fcard (A |\<union>| B)))"
proof -
  have u: "fcard A + fcard B - fcard (A |\<inter>| B) = fcard (A |\<union>| B)"
    using fcard_funion_finter [of A B] by simp
  have "A |\<union>| B \<noteq> {||}" using assms by simp
  then have nz: "fcard (A |\<union>| B) \<noteq> 0" by (simp add: fcard_0_eq)
  have ne: "fcard A \<noteq> 0" "fcard B \<noteq> 0" using assms by (simp_all add: fcard_0_eq)
  have nle: "\<not> fcard A + fcard B \<le> fcard (A |\<inter>| B)" using u nz by linarith
  show ?thesis
  proof (cases "fcard A \<le> fcard B")
    case True
    then show ?thesis using ne nle u assms
      by (simp add: jaccardSimilarity_def Let_def ffilter_mem)
  next
    case False
    then show ?thesis using ne nle u assms
      by (simp add: jaccardSimilarity_def Let_def ffilter_mem inf_commute)
  qed
qed

lemma jaccard_empty_left: "jaccardSimilarity {||} B = (if B = {||} then Fin 1 else Fin 0)"
  by (simp add: jaccardSimilarity_def fcard_0_eq)

lemma jaccard_empty_right: "jaccardSimilarity A {||} = (if A = {||} then Fin 1 else Fin 0)"
  by (simp add: jaccardSimilarity_def fcard_0_eq)

lemma jaccard_sym: "jaccardSimilarity A B = jaccardSimilarity B A"
proof (cases "A = {||} \<or> B = {||}")
  case True
  then show ?thesis by (auto simp add: jaccard_empty_left jaccard_empty_right)
next
  case False
  then show ?thesis by (simp add: jaccard_nonempty inf_commute sup_commute)
qed

lemma jaccard_self: "jaccardSimilarity A A = Fin 1"
proof (cases "A = {||}")
  case True
  then show ?thesis by (simp add: jaccard_empty_left)
next
  case False
  then have "fcard A \<noteq> 0" by (simp add: fcard_0_eq)
  then show ?thesis using False by (simp add: jaccard_nonempty)
qed

section \<open>Lemmas: timestamps and the batch\<close>

lemma exec_Some_length: "DATED_MEMORY_PATH_RE_exec s = Some g \<Longrightarrow> 20 \<le> length s"
  by (auto simp add: DATED_MEMORY_PATH_RE_exec_def Let_def split: if_splits)

lemma matched_not_evergreen:
  assumes "DATED_MEMORY_PATH_RE_exec (normalizePath p) = Some g"
  shows "\<not> isEvergreenMemoryPath p"
proof -
  have "20 \<le> length (normalizePath p)" using assms by (rule exec_Some_length)
  then have "normalizePath p \<noteq> ''MEMORY.md''" "normalizePath p \<noteq> ''memory.md''" by auto
  then show ?thesis using assms
    by (simp add: isEvergreenMemoryPath_def DATED_MEMORY_PATH_RE_test_def Let_def)
qed

lemma evergreen_not_dated:
  "isEvergreenMemoryPath p \<Longrightarrow> parseMemoryDateFromPath p = None"
  using matched_not_evergreen [of p] parse_no_match [of p]
  by (cases "DATED_MEMORY_PATH_RE_exec (normalizePath p)") auto

lemma extractTimestamp_evergreen:
  "isEvergreenMemoryPath p \<Longrightarrow> extractTimestamp e p (Some ''memory'') ws = (None, [])"
  by (simp add: extractTimestamp_def evergreen_not_dated)

lemma statTimestamp_no_ws:
  "ws = None \<or> ws = Some [] \<Longrightarrow> statTimestamp e p ws = (None, [])"
  by (auto simp add: statTimestamp_def)

lemma extractTimestamp_no_ws_calls:
  "ws = None \<or> ws = Some [] \<Longrightarrow> snd (extractTimestamp e p s ws) = []"
  by (auto simp add: extractTimestamp_def statTimestamp_def split: option.splits)

lemma extractTimestamp_no_ws:
  "ws = None \<or> ws = Some [] \<Longrightarrow> parseMemoryDateFromPath p = None \<Longrightarrow>
   extractTimestamp e p s ws = (None, [])"
  by (auto simp add: extractTimestamp_def statTimestamp_def)

lemma statTimestamp_failed:
  assumes "ws = Some w" "w \<noteq> []"
      and "a = (if isAbsolute e p then p else resolve e w p)"
      and "stat e a = None \<or> (\<exists>m. stat e a = Some m \<and> \<not> isFinite m)"
  shows "statTimestamp e p ws = (None, [a])"
  using assms by (auto simp add: statTimestamp_def Let_def)

lemma decay_entries_Cons:
  "decay_entries e ws now hl c (x # xs) =
     (let hit = c (cacheKey x);
          found = extractTimestamp e (path x) (Some (source x)) ws;
          c' = (case hit of Some t \<Rightarrow> c | None \<Rightarrow> c(cacheKey x \<mapsto> fst found));
          rest = decay_entries e ws now hl c' xs
      in (decay_one now hl (case hit of Some t \<Rightarrow> t | None \<Rightarrow> fst found) x # fst rest,
          (case hit of Some t \<Rightarrow> [] | None \<Rightarrow> snd found) @ snd rest))"
  by (simp add: Let_def split_beta split: option.splits)

lemma decay_entries_length: "length (fst (decay_entries e ws now hl c xs)) = length xs"
proof (induction xs arbitrary: c)
  case Nil
  then show ?case by simp
next
  case (Cons x xs)
  show ?case unfolding decay_entries_Cons Let_def by (simp add: Cons.IH)
qed

lemma resolved_timestamp_step:
  assumes "c' = (case c (cacheKey x) of Some t \<Rightarrow> c
                 | None \<Rightarrow> c(cacheKey x \<mapsto> fst (extractTimestamp e (path x) (Some (source x)) ws)))"
  shows "resolved_timestamp e ws c' xs y = resolved_timestamp e ws c (x # xs) y"
proof (cases "c (cacheKey x)")
  case None
  then show ?thesis using assms
    by (cases "cacheKey x = cacheKey y") (simp_all add: resolved_timestamp_def split: option.splits)
next
  case (Some t)
  then show ?thesis using assms
    by (cases "cacheKey x = cacheKey y") (simp_all add: resolved_timestamp_def split: option.splits)
qed

lemma decay_entries_nth:
  "i < length xs \<Longrightarrow>
   fst (decay_entries e ws now hl c xs) ! i
     = decay_one now hl (resolved_timestamp e ws c xs (xs ! i)) (xs ! i)"
proof (induction xs arbitrary: c i)
  case Nil
  then show ?case by simp
next
  case (Cons x xs)
  define c' where "c' = (case c (cacheKey x) of Some t \<Rightarrow> c
                 | None \<Rightarrow> c(cacheKey x \<mapsto> fst (extractTimestamp e (path x) (Some (source x)) ws)))"
  have hd: "fst (decay_entries e ws now hl c (x # xs))
            = decay_one now hl (resolved_timestamp e ws c (x # xs) x) x
              # fst (decay_entries e ws now hl c' xs)"
    unfolding decay_entries_Cons Let_def
    by (simp add: c'_def resolved_timestamp_def split: option.splits)
  show ?case
  proof (cases i)
    case 0
    then show ?thesis by (simp add: hd del: decay_entries.simps)
  next
    case (Suc j)
    then have "j < length xs" using Cons.prems by simp
    then have "fst (decay_entries e ws now hl c' xs) ! j
               = decay_one now hl (resolved_timestamp e ws c' xs (xs ! j)) (xs ! j)"
      by (rule Cons.IH)
    then show ?thesis
      using Suc resolved_timestamp_step [OF c'_def]
      by (simp add: hd del: decay_entries.simps)
  qed
qed

lemma decay_entries_calls_nil:
  "ws = None \<or> ws = Some [] \<Longrightarrow> snd (decay_entries e ws now hl c xs) = []"
proof (induction xs arbitrary: c)
  case Nil
  then show ?case by simp
next
  case (Cons x xs)
  have "snd (extractTimestamp e (path x) (Some (source x)) ws) = []"
    using Cons.prems by (rule extractTimestamp_no_ws_calls)
  then show ?case
    unfolding decay_entries_Cons Let_def using Cons by (simp split: option.splits)
qed

lemma returned_nth:
  "length outs = length xs \<Longrightarrow> i < length xs \<Longrightarrow>
   returned xs outs ! i = (case outs ! i of None \<Rightarrow> xs ! i | Some y \<Rightarrow> y)"
  by (simp add: returned_def)

lemma returned_length: "length outs = length xs \<Longrightarrow> length (returned xs outs) = length xs"
  by (simp add: returned_def)

lemma age_future: "now \<le> t \<Longrightarrow> ageInDaysFromTimestamp (Fin t) (Fin now) = Fin 0"
proof -
  assume "now \<le> t"
  then have "fl (now - t) = NInf \<or> (\<exists>d. fl (now - t) = Fin d \<and> d \<le> 0)"
    using overflow_bound_large by (auto simp add: fl_def)
  then have "Math_max2 (Fin 0) (js_sub (Fin now) (Fin t)) = Fin 0"
    by (auto simp add: js_sub_Fin Math_max2_def max_def)
  then show ?thesis
    by (simp add: ageInDaysFromTimestamp_def getTime_def Let_def DAY_MS_def)
qed

lemma decay_stage_length:
  "length (fst (applyTemporalDecayToHybridResults e params)) = length (results params)"
  by (simp add: applyTemporalDecayToHybridResults_def Let_def split_beta returned_length
      decay_entries_length)

lemma decay_stage_nth:
  assumes "i < length (results params)" "enabled (merge_decay_config (temporalDecay params))"
  shows "fst (applyTemporalDecayToHybridResults e params) ! i =
     (case decay_one (case nowMs params of None \<Rightarrow> Date_now e | Some n \<Rightarrow> n)
             (halfLifeDays (merge_decay_config (temporalDecay params)))
             (resolved_timestamp e (workspaceDir params) Map.empty (results params) (results params ! i))
             (results params ! i) of
        None \<Rightarrow> results params ! i | Some y \<Rightarrow> y)"
  using assms
  by (simp add: applyTemporalDecayToHybridResults_def Let_def split_beta returned_nth
      decay_entries_length decay_entries_nth)

lemma decay_stage_unresolved:
  assumes "i < length (results params)"
      and "resolved_timestamp e (workspaceDir params) Map.empty (results params) (results params ! i) = None"
  shows "fst (applyTemporalDecayToHybridResults e params) ! i = results params ! i"
proof (cases "enabled (merge_decay_config (temporalDecay params))")
  case True
  then show ?thesis using assms by (simp add: decay_stage_nth decay_one_def)
next
  case False
  then show ?thesis by (simp add: applyTemporalDecayToHybridResults_def)
qed

lemma resolved_first:
  "find (\<lambda>y. cacheKey y = cacheKey x) xs = Some y \<Longrightarrow>
   resolved_timestamp e ws Map.empty xs x = fst (extractTimestamp e (path y) (Some (source y)) ws)"
  by (simp add: resolved_timestamp_def)

lemma find_same_key:
  assumes "x \<in> set xs"
  obtains y where "find (\<lambda>y. cacheKey y = cacheKey x) xs = Some y" "y \<in> set xs" "cacheKey y = cacheKey x"
proof -
  have "find (\<lambda>y. cacheKey y = cacheKey x) xs \<noteq> None"
    using assms by (auto simp add: find_None_iff)
  then obtain y where y: "find (\<lambda>y. cacheKey y = cacheKey x) xs = Some y" by auto
  then have "y \<in> set xs" "cacheKey y = cacheKey x"
    by (auto simp add: find_Some_iff)
  then show ?thesis using y that by blast
qed

lemma resolved_own:
  assumes "x \<in> set xs"
      and "\<forall>y\<in>set xs. cacheKey y = cacheKey x \<longrightarrow> source y = source x \<and> path y = path x"
  shows "resolved_timestamp e ws Map.empty xs x = fst (extractTimestamp e (path x) (Some (source x)) ws)"
proof -
  from assms(1) obtain y where y: "find (\<lambda>y. cacheKey y = cacheKey x) xs = Some y"
    "y \<in> set xs" "cacheKey y = cacheKey x" by (rule find_same_key)
  then have "source y = source x" "path y = path x" using assms(2) by auto
  then show ?thesis using y by (simp add: resolved_first)
qed

lemma evergreen_unchanged:
  assumes "i < length (results params)"
      and "source (results params ! i) = ''memory''"
      and "isEvergreenMemoryPath (path (results params ! i))"
      and "\<forall>y\<in>set (results params). cacheKey y = cacheKey (results params ! i) \<longrightarrow>
             source y = source (results params ! i) \<and> path y = path (results params ! i)"
  shows "fst (applyTemporalDecayToHybridResults e params) ! i = results params ! i"
proof -
  have "results params ! i \<in> set (results params)" using assms(1) by simp
  then have "resolved_timestamp e (workspaceDir params) Map.empty (results params) (results params ! i)
        = fst (extractTimestamp e (path (results params ! i)) (Some (source (results params ! i))) (workspaceDir params))"
    using assms(4) by (rule resolved_own)
  also have "\<dots> = None" using assms(2,3) by (simp add: extractTimestamp_evergreen)
  finally show ?thesis using assms(1) by (rule decay_stage_unresolved[rotated])
qed

lemma no_workspace_unchanged:
  assumes "i < length (results params)"
      and "workspaceDir params = None \<or> workspaceDir params = Some []"
      and "parseMemoryDateFromPath (path (results params ! i)) = None"
      and "\<forall>y\<in>set (results params). cacheKey y = cacheKey (results params ! i) \<longrightarrow>
             source y = source (results params ! i) \<and> path y = path (results params ! i)"
  shows "fst (applyTemporalDecayToHybridResults e params) ! i = results params ! i"
proof -
  have "results params ! i \<in> set (results params)" using assms(1) by simp
  then have "resolved_timestamp e (workspaceDir params) Map.empty (results params) (results params ! i)
        = fst (extractTimestamp e (path (results params ! i)) (Some (source (results params ! i))) (workspaceDir params))"
    using assms(4) by (rule resolved_own)
  also have "\<dots> = None" using assms(2,3) by (simp add: extractTimestamp_no_ws)
  finally show ?thesis using assms(1) by (rule decay_stage_unresolved[rotated])
qed

lemma no_workspace_no_calls:
  "workspaceDir params = None \<or> workspaceDir params = Some [] \<Longrightarrow>
   snd (applyTemporalDecayToHybridResults e params) = []"
  by (simp add: applyTemporalDecayToHybridResults_def Let_def split_beta decay_entries_calls_nil)

section \<open>Lemmas: a file dated thirty days before now\<close>

lemma parse_2024_01_01: "parseMemoryDateFromPath ''memory/2024-01-01.md'' = Some (Fin 1704067200000)"
proof -
  have ex: "DATED_MEMORY_PATH_RE_exec (normalizePath ''memory/2024-01-01.md'')
            = Some (''2024'', ''01'', ''01'')"
    by (simp add: normalizePath_def backslash_def DATED_MEMORY_PATH_RE_exec_def is_digit_def Let_def)
  have d: "digits_to_nat ''2024'' = 2024" "digits_to_nat ''01'' = 1"
    by (simp_all add: digits_to_nat_def digit_value_def)
  have v: "valid_date 2024 1 1" by (simp add: valid_date_def days_in_month_def)
  have n: "day_number 2024 1 1 * DAY_MS = 1704067200000"
    by (simp add: day_number_def DayFromYear_def month_start_def DAY_MS_def)
  show ?thesis using parse_valid [OF ex] v by (simp add: d n)
qed

lemma age_30_days: "ageInDaysFromTimestamp (Fin 1704067200000) (Fin 1706659200000) = Fin 30"
  by (simp add: ageInDaysFromTimestamp_def getTime_def DAY_MS_def js_sub_Fin)

lemma decayed_half:
  "decay_one (Fin 1706659200000) (Fin 30) (Some (Fin 1704067200000)) x = Some (x\<lparr>score := js_mul (score x) (Fin (1 / 2))\<rparr>)"
  by (simp add: decay_one_def applyTemporalDecayToScore_def age_30_days multiplier_30_30)


section \<open>The claims\<close>

subsection \<open>C1: the end-to-end example of the diversity stage\<close>

text \<open>
  The three items of the example: \<open>A\<close> (score 0.9, "cats and dogs"), \<open>B\<close> (score 0.85,
  "cats and dogs too") and \<open>C\<close> (score 0.5, "quantum physics"), behind the references
  0, 1 and 2.
\<close>

definition example_items :: "nat \<Rightarrow> MMRItem" where
  "example_items r =
     (if r = 0 then
        \<lparr>item_id = ''A'', item_score = Fin (9 / 10), item_content = ''cats and dogs''\<rparr>
      else if r = 1 then
        \<lparr>item_id = ''B'', item_score = Fin (85 / 100), item_content = ''cats and dogs too''\<rparr>
      else
        \<lparr>item_id = ''C'', item_score = Fin (5 / 10), item_content = ''quantum physics''\<rparr>)"

definition example_config :: PartialMMRConfig where
  "example_config = \<lparr>mmr_enabled_opt = Some True, lambda_opt = Some (Fin (1 / 2))\<rparr>"

text \<open>
  C1, as the code has it: with the stage enabled and \<open>lambda = 0.5\<close> the output order of
  the example is \<open>A\<close>, \<open>B\<close>, \<open>C\<close>. After \<open>A\<close> is selected, \<open>B\<close> has the normalised
  relevance 0.875 and the similarity 0.75 to \<open>A\<close>, so its MMR score is 0.0625, above
  the MMR score 0 of \<open>C\<close>.
\<close>

theorem example_order: "mmrRerank example_items [0, 1, 2] example_config = [0, 1, 2]"
  by code_simp

theorem example_order_witness:
  "map (\<lambda>r. item_id (example_items r)) (mmrRerank example_items [0, 1, 2] example_config)
   = [''A'', ''B'', ''C'']"
  using example_order by (simp add: example_items_def)

text \<open>C1 as stated (the order \<open>A\<close>, \<open>C\<close>, \<open>B\<close>) does not hold.\<close>

theorem example_order_counterexample:
  "mmrRerank example_items [0, 1, 2] example_config \<noteq> [0, 2, 1]"
  by code_simp

subsection \<open>C2: the reranking as a permutation\<close>

text \<open>
  Two items and two hybrid search results, behind the references 0 and 1, and a
  configuration that enables the stage with the lambda \<open>NaN\<close>.
\<close>

definition two_items :: "nat \<Rightarrow> MMRItem" where
  "two_items r =
     (if r = 0 then
        \<lparr>item_id = ''A'', item_score = Fin (9 / 10), item_content = ''cats and dogs''\<rparr>
      else
        \<lparr>item_id = ''B'', item_score = Fin (1 / 2), item_content = ''quantum physics''\<rparr>)"

definition two_results :: "nat \<Rightarrow> hybrid" where
  "two_results r =
     (if r = 0 then
        \<lparr>h_score = Fin (9 / 10), snippet = ''cats and dogs'', h_path = ''a.md'', startLine = ''1''\<rparr>
      else
        \<lparr>h_score = Fin (1 / 2), snippet = ''quantum physics'', h_path = ''b.md'', startLine = ''7''\<rparr>)"

definition nan_config :: PartialMMRConfig where
  "nan_config = \<lparr>mmr_enabled_opt = Some True, lambda_opt = Some NaN\<rparr>"

text \<open>
  C2 fails at the lambda \<open>NaN\<close>: \<open>Math.max(0, Math.min(1, NaN))\<close> is \<open>NaN\<close>, so the lambda
  is not clamped into the range; every MMR score is \<open>NaN\<close>, no candidate passes the
  comparison with \<open>bestMMRScore\<close>, \<open>bestItem\<close> stays \<open>null\<close> and the loop leaves at its
  \<open>break\<close> with nothing selected. Both \<open>mmrRerank\<close> and \<open>applyMMRToHybridResults\<close> return
  the empty array for two entries: every entry is dropped.
\<close>

theorem nan_lambda_drops_all:
  "mmrRerank two_items [0, 1] nan_config = []
   \<and> applyMMRToHybridResults two_results [0, 1] nan_config = []"
  by code_simp

theorem nan_lambda_drops_all_witness:
  "mset (mmrRerank two_items [0, 1] nan_config) \<noteq> mset [0, 1]
   \<and> length (applyMMRToHybridResults two_results [0, 1] nan_config) \<noteq> length [0 :: nat, 1]"
  using nan_lambda_drops_all by simp

subsection \<open>C3: the date in the path\<close>

text \<open>An environment for the examples: one file, last modified at 1700000000000.\<close>

definition example_env :: env where
  "example_env =
     \<lparr>isAbsolute = (\<lambda>p. take 1 p = ''/''),
      resolve = (\<lambda>ws p. ws @ ''/'' @ p),
      stat = (\<lambda>p. if p = ''/ws/memory/2024-02-30.md'' then Some (Fin 1700000000000) else None),
      Date_now = Fin 0\<rparr>"

lemma day_number_2024_02_29: "day_number 2024 2 29 * DAY_MS = 1709164800000"
  by (simp add: day_number_def DayFromYear_def month_start_def DAY_MS_def)

lemma valid_2024_02_29: "valid_date 2024 2 29"
  by (simp add: valid_date_def days_in_month_def leap_year_def)

lemma invalid_2024_02_30: "\<not> valid_date 2024 2 30"
  by (simp add: valid_date_def days_in_month_def leap_year_def)

lemma digits_2024: "digits_to_nat ''2024'' = 2024" "digits_to_nat ''02'' = 2"
  "digits_to_nat ''29'' = 29" "digits_to_nat ''30'' = 30"
  by (simp_all add: digits_to_nat_def digit_value_def)

lemma parse_txt: "parseMemoryDateFromPath ''memory/2024-01-15.txt'' = None"
  by (simp add: parseMemoryDateFromPath_def normalizePath_def backslash_def
      DATED_MEMORY_PATH_RE_exec_def)

lemma parse_year_50: "parseMemoryDateFromPath ''memory/0050-01-01.md'' = None"
proof -
  have ex: "DATED_MEMORY_PATH_RE_exec (normalizePath ''memory/0050-01-01.md'')
            = Some (''0050'', ''01'', ''01'')"
    by (simp add: normalizePath_def backslash_def DATED_MEMORY_PATH_RE_exec_def is_digit_def Let_def)
  have d: "digits_to_nat ''0050'' = 50" "digits_to_nat ''01'' = 1"
    by (simp_all add: digits_to_nat_def digit_value_def)
  have N: "MakeDay (MakeFullYear 50) 0 1 = DayFromYear 1950"
    by (simp add: MakeDay_def MakeFullYear_def month_start_def)
  have "YearFromDay (DayFromYear 1950) = 1950"
    using DayFromYear_less_Suc [of 1950] by (intro YearFromDay_eq) simp_all
  then show ?thesis
    unfolding parse_eq [OF ex] by (simp add: d N)
qed

text \<open>
  C3, amended to the extension \<open>.md\<close> and to the years from 100 on: when the
  normalised path ends in \<open>memory/YYYY-MM-DD.md\<close>, at the start of the path or after
  a slash, and \<open>YYYY-MM-DD\<close> is a valid calendar date with a year of at least 100,
  then the timestamp is midnight UTC of that day (its time value is the number of
  the day times the milliseconds of a day, and its UTC year, month and day of the
  month are those of the path), and \<open>extractTimestamp\<close> returns it without a call of
  \<open>fs.stat\<close>. When the date is not a valid calendar date, no date is parsed and
  \<open>extractTimestamp\<close> is the fallback on the time of last modification.
\<close>

theorem dated_path_timestamp:
  assumes "normalizePath p = pre @ ''memory/'' @ ys @ ''-'' @ ms @ ''-'' @ ds @ ''.md''"
      and "pre = [] \<or> last pre = CHR ''/''"
      and "length ys = 4" "list_all is_digit ys" "length ms = 2" "list_all is_digit ms"
          "length ds = 2" "list_all is_digit ds"
      and "Y = int (digits_to_nat ys)" "M = int (digits_to_nat ms)" "D = int (digits_to_nat ds)"
      and "t = Fin (of_int (day_number Y M D * DAY_MS))"
  shows "(valid_date Y M D \<and> 100 \<le> Y \<longrightarrow>
            parseMemoryDateFromPath p = Some t
            \<and> extractTimestamp e p src ws = (Some t, [])
            \<and> getUTCFullYear t = Fin (of_int Y) \<and> getUTCMonth t = Fin (of_int (M - 1))
            \<and> getUTCDate t = Fin (of_int D))
       \<and> (\<not> valid_date Y M D \<longrightarrow>
            parseMemoryDateFromPath p = None
            \<and> extractTimestamp e p src ws = statTimestamp e p ws)"
proof -
  have ex: "DATED_MEMORY_PATH_RE_exec (normalizePath p) = Some (ys, ms, ds)"
    unfolding assms(1) using assms(2-8) by (rule exec_shape)
  show ?thesis
  proof (intro conjI impI)
    assume v: "valid_date Y M D \<and> 100 \<le> Y"
    then have "100 \<le> digits_to_nat ys" using assms(9) by simp
    then show 1: "parseMemoryDateFromPath p = Some t"
      using parse_valid [OF ex] v assms(9-12) by simp
    then show "extractTimestamp e p src ws = (Some t, [])"
      by (simp add: extractTimestamp_def)
    show "getUTCFullYear t = Fin (of_int Y)"
      using v by (simp add: getUTCFullYear_def assms(12) Day_time YearFromDay_day_number del: of_int_mult)
    show "getUTCMonth t = Fin (of_int (M - 1))"
      using v by (simp add: getUTCMonth_def assms(12) Day_time MonthFromDay_day_number del: of_int_mult of_int_diff)
    show "getUTCDate t = Fin (of_int D)"
      using v by (simp add: getUTCDate_def assms(12) Day_time DateFromDay_day_number del: of_int_mult)
  next
    assume v: "\<not> valid_date Y M D"
    then show 2: "parseMemoryDateFromPath p = None"
      using parse_invalid [OF ex] assms(9-11) by simp
    have "\<not> isEvergreenMemoryPath p" using ex by (rule matched_not_evergreen)
    then show "extractTimestamp e p src ws = statTimestamp e p ws"
      using 2 by (simp add: extractTimestamp_def)
  qed
qed

theorem dated_path_timestamp_witness:
  "parseMemoryDateFromPath ''notes/memory/2024-02-29.md'' = Some (Fin 1709164800000)
   \<and> getUTCFullYear (Fin 1709164800000) = Fin 2024
   \<and> getUTCMonth (Fin 1709164800000) = Fin 1
   \<and> getUTCDate (Fin 1709164800000) = Fin 29
   \<and> parseMemoryDateFromPath ''memory/2024-02-30.md'' = None
   \<and> extractTimestamp example_env ''memory/2024-02-30.md'' (Some ''memory'') (Some ''/ws'')
       = (Some (Fin 1700000000000), [''/ws/memory/2024-02-30.md''])"
proof -
  have n1: "normalizePath ''notes/memory/2024-02-29.md''
            = ''notes/'' @ ''memory/'' @ ''2024'' @ ''-'' @ ''02'' @ ''-'' @ ''29'' @ ''.md''"
    by (simp add: normalizePath_def backslash_def)
  have n2: "normalizePath ''memory/2024-02-30.md''
            = [] @ ''memory/'' @ ''2024'' @ ''-'' @ ''02'' @ ''-'' @ ''30'' @ ''.md''"
    by (simp add: normalizePath_def backslash_def)
  have dg: "list_all is_digit ''2024''" "list_all is_digit ''02''" "list_all is_digit ''29''"
    "list_all is_digit ''30''"
    by (simp_all add: is_digit_def)
  have t: "Fin 1709164800000 = Fin (real_of_int (day_number 2024 2 29 * DAY_MS))"
    by (simp only: day_number_2024_02_29) simp
  have a: "parseMemoryDateFromPath ''notes/memory/2024-02-29.md'' = Some (Fin 1709164800000)
       \<and> getUTCFullYear (Fin 1709164800000) = Fin 2024
       \<and> getUTCMonth (Fin 1709164800000) = Fin 1
       \<and> getUTCDate (Fin 1709164800000) = Fin 29"
    using dated_path_timestamp [where p = "''notes/memory/2024-02-29.md''" and pre = "''notes/''"
        and ys = "''2024''" and ms = "''02''" and ds = "''29''" and Y = 2024 and M = 2 and D = 29
        and t = "Fin 1709164800000", OF n1 _ _ dg(1) _ dg(2) _ dg(3) _ _ _ t]
      valid_2024_02_29
    by (simp add: digits_2024)
  have st: "statTimestamp example_env ''memory/2024-02-30.md'' (Some ''/ws'')
            = (Some (Fin 1700000000000), [''/ws/memory/2024-02-30.md''])"
    by (simp add: statTimestamp_def example_env_def new_Date_def TimeClip_def ToIntegerOrInfinity_def)
  have b: "parseMemoryDateFromPath ''memory/2024-02-30.md'' = None
       \<and> extractTimestamp example_env ''memory/2024-02-30.md'' (Some ''memory'') (Some ''/ws'')
           = (Some (Fin 1700000000000), [''/ws/memory/2024-02-30.md''])"
    using dated_path_timestamp [where p = "''memory/2024-02-30.md''" and pre = "[]"
        and ys = "''2024''" and ms = "''02''" and ds = "''30''" and Y = 2024 and M = 2 and D = 30
        and e = example_env and src = "Some ''memory''" and ws = "Some ''/ws''",
        OF n2 _ _ dg(1) _ dg(2) _ dg(4) _ _ _ refl]
      invalid_2024_02_30 st
    by (simp add: digits_2024)
  show ?thesis using a b by blast
qed

text \<open>
  C3 as stated does not hold: a path with another extension has no date, and neither
  has a valid date of a year below 100 (\<open>Date.UTC\<close> reads the years 0 to 99 as 1900
  to 1999, and the comparison of the year then fails).
\<close>

theorem dated_path_counterexample:
  "parseMemoryDateFromPath ''memory/2024-01-15.txt'' = None
   \<and> parseMemoryDateFromPath ''memory/0050-01-01.md'' = None
   \<and> valid_date 50 1 1"
  by (simp add: parse_txt parse_year_50 valid_date_def days_in_month_def)

subsection \<open>C4: evergreen files\<close>

text \<open>
  A batch of two entries whose cache keys \<open>source:path\<close> are the same text,
  \<open>memory:memory/x:memory/2024-01-01.md\<close>: the first has a date in its path, the second
  is an evergreen file of the source \<open>memory\<close>. "Now" is thirty days after the date,
  the half-life is thirty days.
\<close>

definition evergreen_collision :: decay_params where
  "evergreen_collision =
     \<lparr>results = [\<lparr>path = ''memory/2024-01-01.md'', score = Fin 1, source = ''memory:memory/x''\<rparr>,
                 \<lparr>path = ''memory/x:memory/2024-01-01.md'', score = Fin 1, source = ''memory''\<rparr>],
      temporalDecay = Some \<lparr>enabled_opt = Some True, halfLifeDays_opt = Some (Fin 30)\<rparr>,
      workspaceDir = None,
      nowMs = Some (Fin 1706659200000)\<rparr>"

lemma evergreen_x: "isEvergreenMemoryPath ''memory/x:memory/2024-01-01.md''"
  by (simp add: isEvergreenMemoryPath_def normalizePath_def backslash_def
      DATED_MEMORY_PATH_RE_test_def DATED_MEMORY_PATH_RE_exec_def Let_def)

text \<open>
  C4 fails on this batch: the second entry is classified as evergreen, yet the stage
  returns it with half its score, since it awaits the timestamp promise the first
  entry stored under the same cache key. Without such a collision of keys an
  evergreen entry is returned as it is (\<open>evergreen_unchanged\<close>).
\<close>

theorem evergreen_collision_decays:
  "isEvergreenMemoryPath (path (results evergreen_collision ! 1))
   \<and> source (results evergreen_collision ! 1) = ''memory''
   \<and> fst (applyTemporalDecayToHybridResults e evergreen_collision) ! 1
       = \<lparr>path = ''memory/x:memory/2024-01-01.md'', score = Fin (1 / 2), source = ''memory''\<rparr>"
proof -
  have r: "resolved_timestamp e None Map.empty (results evergreen_collision) (results evergreen_collision ! 1)
           = Some (Fin 1704067200000)"
    by (simp add: resolved_timestamp_def evergreen_collision_def cacheKey_def
        extractTimestamp_def parse_2024_01_01)
  have "fst (applyTemporalDecayToHybridResults e evergreen_collision) ! 1
        = \<lparr>path = ''memory/x:memory/2024-01-01.md'', score = Fin (1 / 2), source = ''memory''\<rparr>"
    using r
    by (subst decay_stage_nth)
       (simp_all add: evergreen_collision_def merge_decay_config_def decayed_half)
  then show ?thesis by (simp add: evergreen_collision_def evergreen_x)
qed

theorem evergreen_collision_decays_witness:
  "score (fst (applyTemporalDecayToHybridResults example_env evergreen_collision) ! 1) = Fin (1 / 2)
   \<and> score (results evergreen_collision ! 1) = Fin 1"
  using evergreen_collision_decays [of example_env] by (simp add: evergreen_collision_def)

subsection \<open>C7: Jaccard similarity\<close>

text \<open>
  C7: the similarity is symmetric; it is 1 for two identical contents; it is 0 when
  exactly one of the token sets is empty and 1 when both are; otherwise it is the size
  of the intersection over the size of the union, which is 0 for disjoint sets.
\<close>

theorem jaccard_properties:
  "jaccardSimilarity A B = jaccardSimilarity B A
   \<and> textSimilarity c c = Fin 1
   \<and> ((A = {||} \<and> B \<noteq> {||}) \<or> (A \<noteq> {||} \<and> B = {||}) \<longrightarrow> jaccardSimilarity A B = Fin 0)
   \<and> jaccardSimilarity {||} {||} = Fin 1
   \<and> (A \<noteq> {||} \<and> B \<noteq> {||} \<longrightarrow>
        jaccardSimilarity A B = Fin (real (fcard (A |\<inter>| B)) / real (fcard (A |\<union>| B))))
   \<and> (A \<noteq> {||} \<and> B \<noteq> {||} \<and> A |\<inter>| B = {||} \<longrightarrow> jaccardSimilarity A B = Fin 0)"
proof (intro conjI impI)
  show "jaccardSimilarity A B = jaccardSimilarity B A" by (rule jaccard_sym)
  show "textSimilarity c c = Fin 1" by (simp add: textSimilarity_def jaccard_self)
  show "jaccardSimilarity {||} {||} = Fin 1" by (simp add: jaccard_empty_left)
next
  assume "(A = {||} \<and> B \<noteq> {||}) \<or> (A \<noteq> {||} \<and> B = {||})"
  then show "jaccardSimilarity A B = Fin 0"
    by (elim disjE conjE) (simp_all add: jaccard_empty_left jaccard_empty_right)
next
  assume "A \<noteq> {||} \<and> B \<noteq> {||}"
  then show "jaccardSimilarity A B = Fin (real (fcard (A |\<inter>| B)) / real (fcard (A |\<union>| B)))"
    by (simp add: jaccard_nonempty)
next
  assume "A \<noteq> {||} \<and> B \<noteq> {||} \<and> A |\<inter>| B = {||}"
  then show "jaccardSimilarity A B = Fin 0" by (simp add: jaccard_nonempty)
qed

theorem jaccard_properties_witness:
  "jaccardSimilarity {|''cats''|} {|''dogs''|} = jaccardSimilarity {|''dogs''|} {|''cats''|}
   \<and> textSimilarity ''cats and dogs'' ''cats and dogs'' = Fin 1
   \<and> jaccardSimilarity {|''cats''|} {||} = Fin 0
   \<and> jaccardSimilarity {||} {||} = Fin 1
   \<and> jaccardSimilarity {|''cats''|} {|''dogs''|} = Fin 0"
proof -
  have ne: "{|''cats''|} \<noteq> {||}" "{|''dogs''|} \<noteq> {||}" "{|''cats''|} |\<inter>| {|''dogs''|} = {||}"
    by auto
  have h1: "jaccardSimilarity {|''cats''|} {|''dogs''|} = jaccardSimilarity {|''dogs''|} {|''cats''|}
     \<and> textSimilarity ''cats and dogs'' ''cats and dogs'' = Fin 1
     \<and> jaccardSimilarity {||} {||} = Fin 1
     \<and> jaccardSimilarity {|''cats''|} {|''dogs''|} = Fin 0"
    using jaccard_properties [of "{|''cats''|}" "{|''dogs''|}" "''cats and dogs''"] ne by blast
  have h2: "jaccardSimilarity {|''cats''|} {||} = Fin 0"
    using jaccard_properties [of "{|''cats''|}" "{||}" "''cats and dogs''"] ne by blast
  show ?thesis using h1 h2 by blast
qed

subsection \<open>C8: malformed configuration and unusable ages\<close>

text \<open>
  An environment in which every call of \<open>fs.stat\<close> fails or gives a time that is not
  finite, and a batch of two entries.
\<close>

definition failing_env :: env where
  "failing_env =
     \<lparr>isAbsolute = (\<lambda>p. take 1 p = ''/''),
      resolve = (\<lambda>ws p. ws @ ''/'' @ p),
      stat = (\<lambda>p. if p = ''/ws/notes/b.md'' then Some PInf else None),
      Date_now = Fin 0\<rparr>"

definition failing_batch :: decay_params where
  "failing_batch =
     \<lparr>results = [\<lparr>path = ''notes/a.md'', score = Fin 1, source = ''sessions''\<rparr>,
                 \<lparr>path = ''notes/b.md'', score = Fin 2, source = ''sessions''\<rparr>],
      temporalDecay = Some \<lparr>enabled_opt = Some True, halfLifeDays_opt = None\<rparr>,
      workspaceDir = Some ''/ws'',
      nowMs = Some (Fin 0)\<rparr>"

lemma parse_notes: "parseMemoryDateFromPath ''notes/a.md'' = None"
  "parseMemoryDateFromPath ''notes/b.md'' = None"
  by (simp_all add: parseMemoryDateFromPath_def normalizePath_def backslash_def
      DATED_MEMORY_PATH_RE_exec_def)

text \<open>
  What holds of C8. For a half-life that is not finite or not positive the multiplier
  is 1, and so it is for the ages \<open>Infinity\<close> and \<open>NaN\<close>. A timestamp in the future of
  "now" has the age 0. For the age \<open>-Infinity\<close> and for the age 0 the multiplier is 1
  when \<open>Math.LN2 / halfLifeDays\<close> is finite. When the lookup of an entry without a date
  in its path fails, or gives a time that is not finite, the entry has no timestamp.
  The batch returns as many entries as it received, and an entry is returned as it is
  when the lookup issued for its cache key (the one of the first entry of the batch
  with this key) gives no timestamp.
\<close>

lemma decay_degrades:
  "(\<not> isFinite h \<or> js_le h (Fin 0) \<longrightarrow> calculateTemporalDecayMultiplier a h = Fin 1)
   \<and> (a = PInf \<or> a = NaN \<longrightarrow> calculateTemporalDecayMultiplier a h = Fin 1)
   \<and> (isFinite (toDecayLambda h) \<longrightarrow>
        calculateTemporalDecayMultiplier NInf h = Fin 1
        \<and> calculateTemporalDecayMultiplier (Fin 0) h = Fin 1)
   \<and> (now \<le> t \<longrightarrow> ageInDaysFromTimestamp (Fin t) (Fin now) = Fin 0)
   \<and> (parseMemoryDateFromPath p = None \<and> w \<noteq> []
        \<and> (stat e (if isAbsolute e p then p else resolve e w p) = None
           \<or> (\<exists>m. stat e (if isAbsolute e p then p else resolve e w p) = Some m \<and> \<not> isFinite m))
      \<longrightarrow> fst (extractTimestamp e p src (Some w)) = None)
   \<and> length (fst (applyTemporalDecayToHybridResults e params)) = length (results params)
   \<and> (i < length (results params)
        \<and> find (\<lambda>y. cacheKey y = cacheKey (results params ! i)) (results params) = Some y
        \<and> fst (extractTimestamp e (path y) (Some (source y)) (workspaceDir params)) = None
      \<longrightarrow> fst (applyTemporalDecayToHybridResults e params) ! i = results params ! i)"
proof (intro conjI impI)
  assume "\<not> isFinite h \<or> js_le h (Fin 0)"
  then show "calculateTemporalDecayMultiplier a h = Fin 1"
    by (rule multiplier_bad_halflife)
next
  assume "a = PInf \<or> a = NaN"
  then show "calculateTemporalDecayMultiplier a h = Fin 1"
    by (rule multiplier_nonfinite_age)
next
  assume "isFinite (toDecayLambda h)"
  then show "calculateTemporalDecayMultiplier NInf h = Fin 1"
    "calculateTemporalDecayMultiplier (Fin 0) h = Fin 1"
    by (simp_all add: multiplier_neg_infinity multiplier_age_zero)
next
  assume "now \<le> t"
  then show "ageInDaysFromTimestamp (Fin t) (Fin now) = Fin 0"
    by (rule age_future)
next
  assume a: "parseMemoryDateFromPath p = None \<and> w \<noteq> []
        \<and> (stat e (if isAbsolute e p then p else resolve e w p) = None
           \<or> (\<exists>m. stat e (if isAbsolute e p then p else resolve e w p) = Some m \<and> \<not> isFinite m))"
  then have "statTimestamp e p (Some w) = (None, [if isAbsolute e p then p else resolve e w p])"
    by (intro statTimestamp_failed) auto
  then show "fst (extractTimestamp e p src (Some w)) = None"
    using a by (simp add: extractTimestamp_def)
next
  show "length (fst (applyTemporalDecayToHybridResults e params)) = length (results params)"
    by (rule decay_stage_length)
next
  assume a: "i < length (results params)
        \<and> find (\<lambda>y. cacheKey y = cacheKey (results params ! i)) (results params) = Some y
        \<and> fst (extractTimestamp e (path y) (Some (source y)) (workspaceDir params)) = None"
  then have "resolved_timestamp e (workspaceDir params) Map.empty (results params) (results params ! i) = None"
    by (simp add: resolved_first)
  then show "fst (applyTemporalDecayToHybridResults e params) ! i = results params ! i"
    using a by (simp add: decay_stage_unresolved)
qed

lemma failing_batch_unchanged:
  "fst (applyTemporalDecayToHybridResults failing_env failing_batch) ! 1
   = \<lparr>path = ''notes/b.md'', score = Fin 2, source = ''sessions''\<rparr>"
proof -
  have "fst (extractTimestamp failing_env ''notes/b.md'' (Some ''sessions'') (Some ''/ws'')) = None"
    using decay_degrades [where e = failing_env and p = "''notes/b.md''" and w = "''/ws''"
        and src = "Some ''sessions''"]
    by (simp add: parse_notes failing_env_def)
  then show ?thesis
    using decay_degrades [where e = failing_env and params = failing_batch and i = 1
        and y = "\<lparr>path = ''notes/b.md'', score = Fin 2, source = ''sessions''\<rparr>"]
    by (simp add: failing_batch_def cacheKey_def)
qed

text \<open>
  A batch with one entry dated 2024-01-01, seen at the epoch, so that its timestamp is
  in the future of "now"; the half-life is \<open>Number.MIN_VALUE\<close>, the smallest positive double.
\<close>

definition future_dated :: decay_params where
  "future_dated =
     \<lparr>results = [\<lparr>path = ''memory/2024-01-01.md'', score = Fin 1, source = ''sessions''\<rparr>],
      temporalDecay = Some \<lparr>enabled_opt = Some True, halfLifeDays_opt = Some (Fin MIN_VALUE)\<rparr>,
      workspaceDir = None,
      nowMs = Some (Fin 0)\<rparr>"

text \<open>
  C8 fails at this half-life: \<open>Math.LN2 / halfLifeDays\<close> overflows to \<open>Infinity\<close>, which
  passes the test \<open>lambda <= 0\<close>, and \<open>-Infinity * 0\<close> is \<open>NaN\<close>. So the multiplier of the
  age \<open>-Infinity\<close>, which is clamped to 0, is \<open>NaN\<close> and not 1, and the entry with a
  timestamp in the future, whose age is 0, is returned with the score \<open>NaN\<close>.
\<close>

theorem subnormal_half_life:
  "toDecayLambda (Fin MIN_VALUE) = PInf
   \<and> calculateTemporalDecayMultiplier NInf (Fin MIN_VALUE) = NaN
   \<and> ageInDaysFromTimestamp (Fin 1704067200000) (Fin 0) = Fin 0
   \<and> calculateTemporalDecayMultiplier (Fin 0) (Fin MIN_VALUE) = NaN
   \<and> fst (applyTemporalDecayToHybridResults e future_dated)
       = [\<lparr>path = ''memory/2024-01-01.md'', score = NaN, source = ''sessions''\<rparr>]"
proof -
  note m = multiplier_overflow
  have a: "ageInDaysFromTimestamp (Fin 1704067200000) (Fin 0) = Fin 0"
    by (rule age_future) simp
  have "fst (applyTemporalDecayToHybridResults e future_dated)
       = [\<lparr>path = ''memory/2024-01-01.md'', score = NaN, source = ''sessions''\<rparr>]"
    by (simp add: applyTemporalDecayToHybridResults_def future_dated_def merge_decay_config_def
        Let_def returned_def cacheKey_def extractTimestamp_def parse_2024_01_01 decay_one_def
        applyTemporalDecayToScore_def a m)
  then show ?thesis using m a by (simp add: toDecayLambda_overflow)
qed

theorem subnormal_half_life_witness:
  "calculateTemporalDecayMultiplier NInf (Fin MIN_VALUE) \<noteq> Fin 1
   \<and> score (hd (fst (applyTemporalDecayToHybridResults example_env future_dated))) = NaN"
  using subnormal_half_life [of example_env] by simp

subsection \<open>C10: no workspace directory\<close>

text \<open>
  A batch of two entries with the same cache key \<open>x:y:memory/2024-01-01.md\<close>: the first
  has a date in its path, the second has none and is not evergreen. No workspace
  directory is given.
\<close>

definition plain_collision :: decay_params where
  "plain_collision =
     \<lparr>results = [\<lparr>path = ''memory/2024-01-01.md'', score = Fin 1, source = ''x:y''\<rparr>,
                 \<lparr>path = ''y:memory/2024-01-01.md'', score = Fin 1, source = ''x''\<rparr>],
      temporalDecay = Some \<lparr>enabled_opt = Some True, halfLifeDays_opt = Some (Fin 30)\<rparr>,
      workspaceDir = None,
      nowMs = Some (Fin 1706659200000)\<rparr>"

lemma parse_y: "parseMemoryDateFromPath ''y:memory/2024-01-01.md'' = None"
  by (simp add: parseMemoryDateFromPath_def normalizePath_def backslash_def
      DATED_MEMORY_PATH_RE_exec_def Let_def)

text \<open>
  C10 fails on this batch in its conclusion: \<open>fs.stat\<close> is never called, but the second
  entry, which has no date in its path and is not evergreen, is returned with half
  its score, through the timestamp promise of the first entry. Without such a
  collision of keys the entry is returned as it is (\<open>no_workspace_unchanged\<close>), and
  \<open>fs.stat\<close> is never called whatever the batch (\<open>no_workspace_no_calls\<close>).
\<close>

theorem plain_collision_decays:
  "parseMemoryDateFromPath (path (results plain_collision ! 1)) = None
   \<and> source (results plain_collision ! 1) = ''x''
   \<and> snd (applyTemporalDecayToHybridResults e plain_collision) = []
   \<and> fst (applyTemporalDecayToHybridResults e plain_collision) ! 1
       = \<lparr>path = ''y:memory/2024-01-01.md'', score = Fin (1 / 2), source = ''x''\<rparr>"
proof -
  have r: "resolved_timestamp e None Map.empty (results plain_collision) (results plain_collision ! 1)
           = Some (Fin 1704067200000)"
    by (simp add: resolved_timestamp_def plain_collision_def cacheKey_def
        extractTimestamp_def parse_2024_01_01)
  have "fst (applyTemporalDecayToHybridResults e plain_collision) ! 1
        = \<lparr>path = ''y:memory/2024-01-01.md'', score = Fin (1 / 2), source = ''x''\<rparr>"
    using r
    by (subst decay_stage_nth)
       (simp_all add: plain_collision_def merge_decay_config_def decayed_half)
  moreover have "snd (applyTemporalDecayToHybridResults e plain_collision) = []"
    by (rule no_workspace_no_calls) (simp add: plain_collision_def)
  ultimately show ?thesis by (simp add: plain_collision_def parse_y)
qed

theorem plain_collision_decays_witness:
  "score (fst (applyTemporalDecayToHybridResults example_env plain_collision) ! 1) = Fin (1 / 2)
   \<and> score (results plain_collision ! 1) = Fin 1"
  using plain_collision_decays [of example_env] by (simp add: plain_collision_def)

end
